theory Spec2Isabelle
  imports Main "HOL-Library.AList"
begin

section \<open>Strings and dynamic values\<close>

text \<open>
  Python text and byte strings are both carried by HOL strings, and the UTF-8 codec is
  taken on text it does not change (ASCII). A value whose Python type matters (a stored
  attribute value, a password handed to \<^verbatim>\<open>passwd_s\<close>) is tagged with it: in
  Python 3 a \<^verbatim>\<open>bytes\<close> object never equals a \<^verbatim>\<open>str\<close> object.
\<close>

datatype pyval = Bytes string | Text string

fun is_bytes :: "pyval \<Rightarrow> bool" where
  "is_bytes (Bytes s) = True"
| "is_bytes (Text s) = False"

text \<open>\<^verbatim>\<open>s.split(sep)\<close> for a one-character separator: never the empty list.\<close>

fun py_split :: "char \<Rightarrow> string \<Rightarrow> string list" where
  "py_split sep [] = [[]]"
| "py_split sep (c # cs) =
     (if c = sep then [] # py_split sep cs
      else (case py_split sep cs of
              [] \<Rightarrow> [[c]]
            | p # ps \<Rightarrow> (c # p) # ps))"

text \<open>\<^verbatim>\<open>sep.join(parts)\<close>.\<close>

fun py_join :: "string \<Rightarrow> string list \<Rightarrow> string" where
  "py_join sep [] = []"
| "py_join sep [p] = p"
| "py_join sep (p # q # ps) = p @ sep @ py_join sep (q # ps)"

section \<open>Errors\<close>

datatype error =
    INVALID_DN_SYNTAX
  | NO_SUCH_OBJECT
  | ALREADY_EXISTS
  | PROTOCOL_ERROR
  | INVALID_CREDENTIALS string
  | DECODING_ERROR
  | SeedRequired
  | UnsupportedOp
  | FilterError
  | TypeError
  | ValueError
  | KeyError
  | IndexError
  | AttributeError
  | BinasciiError

section \<open>The case-insensitive dictionary and the entries\<close>

text \<open>
  \<^verbatim>\<open>ldap.cidict.cidict\<close> belongs to python-ldap, not to this repository. It keeps two
  dictionaries under the lower-cased key: the key as it was given and the value. Every
  access lower-cases the key it is handed with \<^verbatim>\<open>str.lower\<close>, here the parameter
  \<open>lw\<close>. The model is an association list from the lower-cased key to the pair of the
  given key and the value, in insertion order.
\<close>

type_synonym 'v cidict = "(string \<times> string \<times> 'v) list"

definition cidict_getitem :: "(string \<Rightarrow> string) \<Rightarrow> 'v cidict \<Rightarrow> string \<Rightarrow> 'v option" where
  "cidict_getitem lw d k = map_option snd (map_of d (lw k))"

definition cidict_contains :: "(string \<Rightarrow> string) \<Rightarrow> 'v cidict \<Rightarrow> string \<Rightarrow> bool" where
  "cidict_contains lw d k = (case map_of d (lw k) of None \<Rightarrow> False | Some x \<Rightarrow> True)"

definition cidict_setitem ::
  "(string \<Rightarrow> string) \<Rightarrow> 'v cidict \<Rightarrow> string \<Rightarrow> 'v \<Rightarrow> 'v cidict" where
  "cidict_setitem lw d k v = AList.update (lw k) (k, v) d"

definition cidict_delitem :: "(string \<Rightarrow> string) \<Rightarrow> 'v cidict \<Rightarrow> string \<Rightarrow> 'v cidict" where
  "cidict_delitem lw d k = AList.delete (lw k) d"

definition cidict_keys :: "'v cidict \<Rightarrow> string list" where
  "cidict_keys d = map (\<lambda>(lk, k, v). k) d"

text \<open>
  The operations mutate an entry object in place while the dictionary keeps pointing to
  it. With values instead of references, the changed entry is written back under the
  key it was read from; the key as given stays.
\<close>

definition cidict_mutate ::
  "(string \<Rightarrow> string) \<Rightarrow> 'v cidict \<Rightarrow> string \<Rightarrow> 'v \<Rightarrow> 'v cidict" where
  "cidict_mutate lw d k v = AList.map_entry (lw k) (\<lambda>(k0, v0). (k0, v)) d"

text \<open>An entry is a plain dictionary from attribute name to a list of values.\<close>

type_synonym entry = "(string \<times> pyval list) list"

section \<open>The connection object\<close>

record state =
  directory :: "entry cidict"
  async_results :: "(string \<times> entry) list option list"
  options :: "(int \<times> int) list"
  tls_enabled :: bool
  bound_as :: "string option"

definition init :: "entry cidict \<Rightarrow> state" where
  "init d = \<lparr>directory = d, async_results = [], options = [], tls_enabled = False,
             bound_as = None\<rparr>"

text \<open>
  What the code calls outside this repository's file: \<^verbatim>\<open>str.lower\<close>, the DN parser
  of python-ldap (\<open>str2dn_ok dn\<close> holds when \<^verbatim>\<open>ldap.dn.str2dn(dn)\<close> returns,
  \<open>explode_dn\<close> is \<open>None\<close> when it raises \<^verbatim>\<open>DECODING_ERROR\<close>), the filter
  module (\<^verbatim>\<open>parse\<close> and \<^verbatim>\<open>matches\<close>), \<^verbatim>\<open>crypt\<close> (\<open>None\<close> when the
  import failed), \<^verbatim>\<open>base64.b64decode\<close> and \<^verbatim>\<open>hashlib.sha1\<close>. They are
  parameters of the model.
\<close>

record 'f ldap_lib =
  str_lower :: "string \<Rightarrow> string"
  str2dn_ok :: "string \<Rightarrow> bool"
  explode_dn :: "string \<Rightarrow> string list option"
  filter_parse :: "string \<Rightarrow> error + 'f"
  filter_matches :: "'f \<Rightarrow> string \<Rightarrow> entry \<Rightarrow> error + bool"
  crypt :: "(string \<Rightarrow> string \<Rightarrow> string) option"
  b64decode :: "string \<Rightarrow> string option"
  sha1 :: "string \<Rightarrow> string"

definition MOD_ADD :: int where "MOD_ADD = 0"
definition MOD_DELETE :: int where "MOD_DELETE = 1"
definition MOD_REPLACE :: int where "MOD_REPLACE = 2"

definition SCOPE_BASE :: int where "SCOPE_BASE = 0"
definition SCOPE_ONELEVEL :: int where "SCOPE_ONELEVEL = 1"
definition SCOPE_SUBTREE :: int where "SCOPE_SUBTREE = 2"

definition RES_SEARCH_RESULT :: int where "RES_SEARCH_RESULT = 101"

definition digest_size :: nat where "digest_size = 20"

section \<open>Compare and bind\<close>

text \<open>
  \<^verbatim>\<open>PASSWORD_RE.match(value)\<close> for the pattern \<^verbatim>\<open>^{(.*?)}(.*)\<close>: the value starts
  with an opening brace, the scheme runs to the first closing brace and holds no
  newline, the rest runs to the next newline.
\<close>

definition PASSWORD_RE_match :: "string \<Rightarrow> (string \<times> string) option" where
  "PASSWORD_RE_match v =
     (case v of
        [] \<Rightarrow> None
      | c # rest \<Rightarrow>
          if c \<noteq> CHR ''{'' then None
          else
            let scheme = takeWhile (\<lambda>x. x \<noteq> CHR ''}'') rest in
            if length scheme = length rest \<or> CHR 0x0A \<in> set scheme then None
            else Some (scheme,
                       takeWhile (\<lambda>x. x \<noteq> CHR 0x0A) (drop (Suc (length scheme)) rest)))"

definition compare_password :: "'f ldap_lib \<Rightarrow> string \<Rightarrow> string \<Rightarrow> error + bool" where
  "compare_password L password v =
     (case PASSWORD_RE_match v of
        Some (scheme, raw) \<Rightarrow>
          let other =
            (if scheme = ''SSHA'' then
               (case b64decode L raw of
                  None \<Rightarrow> Inl BinasciiError
                | Some decoded \<Rightarrow>
                    Inr (sha1 L (password @ drop digest_size decoded)
                           = take digest_size decoded))
             else Inr False)
          in (case crypt L of
                Some cr \<Rightarrow>
                  if scheme = ''CRYPT'' then Inr (cr password (take 4 raw) = raw) else other
              | None \<Rightarrow> other)
      | None \<Rightarrow> Inr (v = password))"

text \<open>
  \<^verbatim>\<open>x.decode('utf-8')\<close>: a \<^verbatim>\<open>str\<close> object has no such method. The byte
  strings of the model are ASCII, which the decoding leaves as it is; byte strings that
  are not valid UTF-8, on which it raises, are outside the model.
\<close>

fun decode :: "pyval \<Rightarrow> error + string" where
  "decode (Bytes s) = Inr s"
| "decode (Text s) = Inl AttributeError"

text \<open>
  \<^verbatim>\<open>any(self._compare_password(value, candidate) for candidate in values)\<close> over the
  lazily decoded values: it stops at the first match, and at the first error.
\<close>

fun any_compare_password :: "'f ldap_lib \<Rightarrow> string \<Rightarrow> pyval list \<Rightarrow> error + bool" where
  "any_compare_password L v [] = Inr False"
| "any_compare_password L v (x # xs) =
     (case decode x of
        Inl e \<Rightarrow> Inl e
      | Inr candidate \<Rightarrow>
          (case compare_password L v candidate of
             Inl e \<Rightarrow> Inl e
           | Inr b \<Rightarrow> if b then Inr True else any_compare_password L v xs))"

text \<open>\<^verbatim>\<open>value in values\<close> over the lazily decoded values.\<close>

fun value_in :: "string \<Rightarrow> pyval list \<Rightarrow> error + bool" where
  "value_in v [] = Inr False"
| "value_in v (x # xs) =
     (case decode x of
        Inl e \<Rightarrow> Inl e
      | Inr candidate \<Rightarrow> if v = candidate then Inr True else value_in v xs)"

definition compare_s_impl ::
  "'f ldap_lib \<Rightarrow> state \<Rightarrow> string \<Rightarrow> string \<Rightarrow> string \<Rightarrow> error + int" where
  "compare_s_impl L st dn attr v =
     (if \<not> str2dn_ok L dn then Inl INVALID_DN_SYNTAX
      else
        (case cidict_getitem (str_lower L) (directory st) dn of
           None \<Rightarrow> Inl NO_SUCH_OBJECT
         | Some e \<Rightarrow>
             let vals = (case map_of e attr of None \<Rightarrow> [] | Some vs \<Rightarrow> vs) in
             (case (if attr = ''userPassword'' then any_compare_password L v vals
                    else value_in v vals) of
                Inl err \<Rightarrow> Inl err
              | Inr b \<Rightarrow> Inr (if b then 1 else 0))))"

text \<open>
  \<^verbatim>\<open>simple_bind_s\<close>: only \<^verbatim>\<open>NO_SUCH_OBJECT\<close> is caught; any other error of the
  compare leaves the method as it is.
\<close>

definition simple_bind_s ::
  "'f ldap_lib \<Rightarrow> state \<Rightarrow> string \<Rightarrow> string \<Rightarrow> (error + int \<times> pyval list) \<times> state" where
  "simple_bind_s L st who cred =
     (let attempt =
        (if who = [] \<and> cred = [] then Inr True
         else
           (case compare_s_impl L st who ''userPassword'' cred of
              Inl NO_SUCH_OBJECT \<Rightarrow> Inr False
            | Inl e \<Rightarrow> Inl e
            | Inr r \<Rightarrow> Inr (r \<noteq> 0)))
      in (case attempt of
            Inl e \<Rightarrow> (Inl e, st)
          | Inr success \<Rightarrow>
              if success then (Inr (97, []), st\<lparr>bound_as := Some who\<rparr>)
              else (Inl (INVALID_CREDENTIALS (who @ '':'' @ cred)), st)))"

section \<open>Search\<close>

text \<open>
  \<^verbatim>\<open>{dn: explode_dn(dn.lower()) for dn in self.directory.keys()}\<close>: built key by key,
  the first key that does not parse raises.
\<close>

fun explode_keys ::
  "'f ldap_lib \<Rightarrow> string list \<Rightarrow> (string \<times> string list) list
     \<Rightarrow> error + (string \<times> string list) list" where
  "explode_keys L [] acc = Inr acc"
| "explode_keys L (dn # dns) acc =
     (case explode_dn L (str_lower L dn) of
        None \<Rightarrow> Inl DECODING_ERROR
      | Some parts \<Rightarrow> explode_keys L dns (AList.update dn parts acc))"

text \<open>The slice \<^verbatim>\<open>parts[-n:]\<close>: the whole list when \<open>n\<close> is zero or exceeds its length.\<close>

definition last_n :: "nat \<Rightarrow> 'a list \<Rightarrow> 'a list" where
  "last_n n xs = (if n = 0 then xs else drop (length xs - n) xs)"

definition scope_dns ::
  "int \<Rightarrow> string list \<Rightarrow> (string \<times> string list) list \<Rightarrow> string list option" where
  "scope_dns scope base_parts dn_parts =
     (if scope = SCOPE_BASE then
        Some (map fst (filter (\<lambda>(dn, parts). parts = base_parts) dn_parts))
      else if scope = SCOPE_ONELEVEL then
        Some (map fst (filter (\<lambda>(dn, parts). drop 1 parts = base_parts) dn_parts))
      else if scope = SCOPE_SUBTREE then
        Some (map fst (filter (\<lambda>(dn, parts). last_n (length base_parts) parts = base_parts)
                         dn_parts))
      else None)"

text \<open>
  The generator \<^verbatim>\<open>((dn, self.directory[dn]) for dn in dns if filter_expr.matches(...))\<close>,
  consumed in order by \<^verbatim>\<open>list\<close>.
\<close>

fun filter_results ::
  "'f ldap_lib \<Rightarrow> 'f \<Rightarrow> entry cidict \<Rightarrow> string list \<Rightarrow> error + (string \<times> entry) list" where
  "filter_results L fe d [] = Inr []"
| "filter_results L fe d (dn # dns) =
     (case cidict_getitem (str_lower L) d dn of
        None \<Rightarrow> Inl KeyError
      | Some e \<Rightarrow>
          (case filter_matches L fe dn e of
             Inl err \<Rightarrow> Inl err
           | Inr b \<Rightarrow>
               (case filter_results L fe d dns of
                  Inl err \<Rightarrow> Inl err
                | Inr rs \<Rightarrow> Inr (if b then (dn, e) # rs else rs))))"

definition project_attrs ::
  "string list option \<Rightarrow> (string \<times> entry) list \<Rightarrow> (string \<times> entry) list" where
  "project_attrs attrlist results =
     (case attrlist of
        None \<Rightarrow> results
      | Some al \<Rightarrow> map (\<lambda>(dn, attrs). (dn, filter (\<lambda>(a, vs). a \<in> set al) attrs)) results)"

definition strip_values :: "int \<Rightarrow> (string \<times> entry) list \<Rightarrow> (string \<times> entry) list" where
  "strip_values attrsonly results =
     (if attrsonly \<noteq> 0 then map (\<lambda>(dn, attrs). (dn, map (\<lambda>(a, vs). (a, [])) attrs)) results
      else results)"

definition search_s_impl ::
  "'f ldap_lib \<Rightarrow> state \<Rightarrow> string \<Rightarrow> int \<Rightarrow> string \<Rightarrow> string list option \<Rightarrow> int
     \<Rightarrow> error + (string \<times> entry) list" where
  "search_s_impl L st base scope filterstr attrlist attrsonly =
     (if \<not> str2dn_ok L base then Inl INVALID_DN_SYNTAX
      else if \<not> cidict_contains (str_lower L) (directory st) base then Inl NO_SUCH_OBJECT
      else
        (case explode_dn L (str_lower L base) of
           None \<Rightarrow> Inl DECODING_ERROR
         | Some base_parts \<Rightarrow>
             (case explode_keys L (cidict_keys (directory st)) [] of
                Inl e \<Rightarrow> Inl e
              | Inr dn_parts \<Rightarrow>
                  (case scope_dns scope base_parts dn_parts of
                     None \<Rightarrow> Inl ValueError
                   | Some dns \<Rightarrow>
                       (case filter_parse L filterstr of
                          Inl e \<Rightarrow> Inl (if e = UnsupportedOp then SeedRequired else e)
                        | Inr fe \<Rightarrow>
                            (case filter_results L fe (directory st) dns of
                               Inl e \<Rightarrow> Inl e
                             | Inr results \<Rightarrow>
                                 Inr (strip_values attrsonly
                                        (project_attrs attrlist results))))))))"

definition search_s ::
  "'f ldap_lib \<Rightarrow> state \<Rightarrow> string \<Rightarrow> int \<Rightarrow> string \<Rightarrow> string list option \<Rightarrow> int
     \<Rightarrow> error + (string \<times> entry) list" where
  "search_s L st base scope filterstr attrlist attrsonly =
     search_s_impl L st base scope filterstr attrlist attrsonly"

section \<open>Asynchronous results\<close>

text \<open>
  A slot holds the stored result, or \<open>None\<close> for Python's \<^verbatim>\<open>None\<close>. The stored
  result is a value here; in the code it is the list the search built, whose tuples
  hold entry objects of the directory (see \<open>changes_entries\<close> below).
\<close>

definition add_async_result :: "state \<Rightarrow> (string \<times> entry) list \<Rightarrow> int \<times> state" where
  "add_async_result st v =
     (let rs = async_results st @ [Some v]
      in (int (length rs) - 1, st\<lparr>async_results := rs\<rparr>))"

definition pop_async_result :: "state \<Rightarrow> int \<Rightarrow> (string \<times> entry) list option \<times> state" where
  "pop_async_result st msgid =
     (if 0 \<le> msgid \<and> msgid < int (length (async_results st)) then
        (async_results st ! nat msgid,
         st\<lparr>async_results := (async_results st)[nat msgid := None]\<rparr>)
      else (None, st))"

definition search ::
  "'f ldap_lib \<Rightarrow> state \<Rightarrow> string \<Rightarrow> int \<Rightarrow> string \<Rightarrow> string list option \<Rightarrow> int
     \<Rightarrow> (error + int) \<times> state" where
  "search L st base scope filterstr attrlist attrsonly =
     (case search_s_impl L st base scope filterstr attrlist attrsonly of
        Inl e \<Rightarrow> (Inl e, st)
      | Inr v \<Rightarrow> (let (msgid, st') = add_async_result st v in (Inr msgid, st')))"

definition result :: "state \<Rightarrow> int \<Rightarrow> (int \<times> (string \<times> entry) list option) \<times> state" where
  "result st msgid =
     (let (v, st') = pop_async_result st msgid in ((RES_SEARCH_RESULT, v), st'))"

section \<open>Modify\<close>

text \<open>
  The value of a modification: \<^verbatim>\<open>None\<close>, a bare value, or a list. The model takes
  lists by value. The code stores the list object it is handed and appends to it in
  place, so a list object that the caller hands over twice, or keeps and changes later,
  is shared; such callers are outside the model.
\<close>

datatype modvalue = VNone | VScalar pyval | VList "pyval list"

fun normalize_value :: "modvalue \<Rightarrow> pyval list" where
  "normalize_value VNone = []"
| "normalize_value (VScalar v) = [v]"
| "normalize_value (VList vs) = vs"

text \<open>\<^verbatim>\<open>any(not isinstance(item, bytes) for item in value)\<close>.\<close>

definition has_non_bytes :: "pyval list \<Rightarrow> bool" where
  "has_non_bytes vs = list_ex (\<lambda>v. \<not> is_bytes v) vs"

text \<open>The loop that appends each value the attribute does not hold yet.\<close>

fun append_new :: "pyval list \<Rightarrow> pyval list \<Rightarrow> pyval list" where
  "append_new cur [] = cur"
| "append_new cur (v # vs) = append_new (if v \<in> set cur then cur else cur @ [v]) vs"

definition modify_item :: "entry \<Rightarrow> int \<Rightarrow> string \<Rightarrow> modvalue \<Rightarrow> error + entry" where
  "modify_item e op key mv =
     (let v = normalize_value mv in
      if op = MOD_ADD then
        (if v = [] then Inl PROTOCOL_ERROR
         else if has_non_bytes v then Inl TypeError
         else
           (case map_of e key of
              None \<Rightarrow> Inr (AList.update key v e)
            | Some cur \<Rightarrow> Inr (AList.update key (append_new cur v) e)))
      else if op = MOD_DELETE then
        (case map_of e key of
           None \<Rightarrow> Inr e
         | Some cur \<Rightarrow>
             if v = [] then Inr (AList.delete key e)
             else if has_non_bytes v then Inl TypeError
             else
               (let kept = filter (\<lambda>x. x \<notin> set v) cur
                in if kept = [] then Inr (AList.delete key e)
                   else Inr (AList.update key kept e)))
      else if op = MOD_REPLACE then
        (if v = [] then
           (case map_of e key of
              None \<Rightarrow> Inr e
            | Some cur \<Rightarrow> Inr (AList.delete key e))
         else if has_non_bytes v then Inl TypeError
         else Inr (AList.update key v e))
      else Inr e)"

text \<open>
  The loop over the modifications. The entry is looked up inside the loop body, once
  per triple; an error leaves the changes of the earlier triples in place.
\<close>

fun modify_loop ::
  "'f ldap_lib \<Rightarrow> state \<Rightarrow> string \<Rightarrow> (int \<times> string \<times> modvalue) list
     \<Rightarrow> (error + int \<times> pyval list) \<times> state" where
  "modify_loop L st dn [] = (Inr (103, []), st)"
| "modify_loop L st dn ((op, key, mv) # rest) =
     (case cidict_getitem (str_lower L) (directory st) dn of
        None \<Rightarrow> (Inl NO_SUCH_OBJECT, st)
      | Some e \<Rightarrow>
          (case modify_item e op key mv of
             Inl err \<Rightarrow> (Inl err, st)
           | Inr e' \<Rightarrow>
               modify_loop L
                 (st\<lparr>directory := cidict_mutate (str_lower L) (directory st) dn e'\<rparr>) dn rest))"

definition modify_s_impl ::
  "'f ldap_lib \<Rightarrow> state \<Rightarrow> string \<Rightarrow> (int \<times> string \<times> modvalue) list
     \<Rightarrow> (error + int \<times> pyval list) \<times> state" where
  "modify_s_impl L st dn mod_attrs =
     (if \<not> str2dn_ok L dn then (Inl INVALID_DN_SYNTAX, st)
      else modify_loop L st dn mod_attrs)"

section \<open>Add, rename, delete\<close>

fun build_entry :: "(string \<times> pyval list) list \<Rightarrow> entry \<Rightarrow> error + entry" where
  "build_entry [] e = Inr e"
| "build_entry ((a, vs) # items) e =
     (if has_non_bytes vs then Inl TypeError
      else build_entry items (AList.update a vs e))"

text \<open>
  \<open>ncalls\<close> stands for \<^verbatim>\<open>len(self.methods_called())\<close>, a count kept by the
  recording layer.
\<close>

definition add_s_impl ::
  "'f ldap_lib \<Rightarrow> nat \<Rightarrow> state \<Rightarrow> string \<Rightarrow> (string \<times> pyval list) list
     \<Rightarrow> (error + int \<times> pyval list \<times> nat \<times> pyval list) \<times> state" where
  "add_s_impl L ncalls st dn items =
     (if \<not> str2dn_ok L dn then (Inl INVALID_DN_SYNTAX, st)
      else
        (case build_entry items [] of
           Inl err \<Rightarrow> (Inl err, st)
         | Inr e \<Rightarrow>
             (case cidict_getitem (str_lower L) (directory st) dn of
                Some x \<Rightarrow> (Inl ALREADY_EXISTS, st)
              | None \<Rightarrow>
                  (Inr (105, [], ncalls, []),
                   st\<lparr>directory := cidict_setitem (str_lower L) (directory st) (str_lower L dn)
                       e\<rparr>))))"

text \<open>\<^verbatim>\<open>entry[attr].remove(v)\<close>: the first occurrence goes.\<close>

definition remove_value :: "entry \<Rightarrow> string \<Rightarrow> pyval \<Rightarrow> error + entry" where
  "remove_value e attr v =
     (case map_of e attr of
        None \<Rightarrow> Inl KeyError
      | Some cur \<Rightarrow>
          if v \<in> set cur then Inr (AList.update attr (remove1 v cur) e)
          else Inl ValueError)"

definition rename_entry ::
  "entry \<Rightarrow> string \<Rightarrow> pyval \<Rightarrow> string \<Rightarrow> pyval \<Rightarrow> error + entry" where
  "rename_entry e oldattr oldvalue newattr newvalue =
     (case (if oldattr = newattr then remove_value e oldattr oldvalue
            else
              (case map_of e oldattr of
                 None \<Rightarrow> Inl KeyError
               | Some cur \<Rightarrow>
                   if length cur > 1 then remove_value e oldattr oldvalue
                   else Inr (AList.delete oldattr e))) of
        Inl err \<Rightarrow> Inl err
      | Inr e1 \<Rightarrow>
          Inr (case map_of e1 newattr of
                 None \<Rightarrow> AList.update newattr [newvalue] e1
               | Some cur \<Rightarrow>
                   if newvalue \<in> set cur then e1
                   else AList.update newattr (cur @ [newvalue]) e1))"

definition rename_s_impl ::
  "'f ldap_lib \<Rightarrow> state \<Rightarrow> string \<Rightarrow> string \<Rightarrow> string option
     \<Rightarrow> (error + int \<times> pyval list) \<times> state" where
  "rename_s_impl L st dn newrdn newsuperior =
     (let sup = (case newsuperior of None \<Rightarrow> [] | Some s \<Rightarrow> s) in
      if \<not> str2dn_ok L dn then (Inl INVALID_DN_SYNTAX, st)
      else if \<not> str2dn_ok L newrdn then (Inl INVALID_DN_SYNTAX, st)
      else if sup \<noteq> [] \<and> \<not> str2dn_ok L sup then (Inl INVALID_DN_SYNTAX, st)
      else
        (case cidict_getitem (str_lower L) (directory st) dn of
           None \<Rightarrow> (Inl NO_SUCH_OBJECT, st)
         | Some e \<Rightarrow>
             let superior =
                   (if sup \<noteq> [] then sup
                    else py_join '','' (drop 1 (py_split CHR '','' dn)));
                 newfulldn = newrdn @ '','' @ superior
             in
               if cidict_contains (str_lower L) (directory st) newfulldn then (Inl ALREADY_EXISTS,
                   st)
               else
                 (case py_split CHR ''=''
                         (case py_split CHR '','' dn of [] \<Rightarrow> [] | p # ps \<Rightarrow> p) of
                    [oldattr, oldvalue] \<Rightarrow>
                      (case py_split CHR ''='' newrdn of
                         [newattr, newvalue] \<Rightarrow>
                           (case rename_entry e oldattr (Bytes oldvalue)
                                   newattr (Bytes newvalue) of
                              Inl err \<Rightarrow> (Inl err, st)
                            | Inr e' \<Rightarrow>
                                (Inr (109, []),
                                 st\<lparr>directory :=
                                      cidict_delitem (str_lower L)
                                        (cidict_setitem (str_lower L) (directory st) newfulldn e')
                                            dn\<rparr>))
                       | _ \<Rightarrow> (Inl ValueError, st))
                  | _ \<Rightarrow> (Inl ValueError, st))))"

definition delete_s_impl ::
  "'f ldap_lib \<Rightarrow> state \<Rightarrow> string \<Rightarrow> (error + int \<times> pyval list) \<times> state" where
  "delete_s_impl L st dn =
     (if \<not> str2dn_ok L dn then (Inl INVALID_DN_SYNTAX, st)
      else if cidict_contains (str_lower L) (directory st) dn then
        (Inr (107, []), st\<lparr>directory := cidict_delitem (str_lower L) (directory st) dn\<rparr>)
      else (Inl NO_SUCH_OBJECT, st))"

section \<open>Password change\<close>

definition passwd_s_impl ::
  "'f ldap_lib \<Rightarrow> state \<Rightarrow> string \<Rightarrow> pyval option \<Rightarrow> pyval \<Rightarrow> (error + unit) \<times> state" where
  "passwd_s_impl L st user oldpw newpw =
     (if \<not> str2dn_ok L user then (Inl INVALID_DN_SYNTAX, st)
      else
        (case cidict_getitem (str_lower L) (directory st) user of
           None \<Rightarrow> (Inl NO_SUCH_OBJECT, st)
         | Some e \<Rightarrow>
             let replaced =
                   st\<lparr>directory :=
                        cidict_mutate (str_lower L) (directory st) user
                          (AList.update ''userPassword'' [newpw] e)\<rparr>
             in
               (case oldpw of
                  Some old \<Rightarrow>
                    (case map_of e ''userPassword'' of
                       None \<Rightarrow> (Inl KeyError, st)
                     | Some [] \<Rightarrow> (Inl IndexError, st)
                     | Some (first # others) \<Rightarrow>
                         if first = old then (Inr (), replaced) else (Inr (), st))
                | None \<Rightarrow> (Inr (), replaced))))"

section \<open>Session state and sequences of calls\<close>

definition start_tls_s :: "state \<Rightarrow> state" where
  "start_tls_s st = st\<lparr>tls_enabled := True\<rparr>"

definition unbind :: "state \<Rightarrow> state" where
  "unbind st = st\<lparr>bound_as := None\<rparr>"

definition set_option :: "state \<Rightarrow> int \<Rightarrow> int \<Rightarrow> state" where
  "set_option st option invalue = st\<lparr>options := AList.update option invalue (options st)\<rparr>"

text \<open>
  A client is a sequence of method calls on one connection object. Each call leaves the
  object in the state the method left it in, whether it returned or raised.
\<close>

datatype call =
    SimpleBind string string
  | Search string int string "string list option" int
  | Result int
  | Modify string "(int \<times> string \<times> modvalue) list"
  | Add nat string "(string \<times> pyval list) list"
  | Rename string string "string option"
  | Delete string
  | Passwd string "pyval option" pyval
  | StartTls
  | Unbind
  | SetOption int int

fun step :: "'f ldap_lib \<Rightarrow> state \<Rightarrow> call \<Rightarrow> state" where
  "step L st (SimpleBind who cred) = snd (simple_bind_s L st who cred)"
| "step L st (Search base scope filterstr attrlist attrsonly) =
     snd (search L st base scope filterstr attrlist attrsonly)"
| "step L st (Result msgid) = snd (result st msgid)"
| "step L st (Modify dn mod_attrs) = snd (modify_s_impl L st dn mod_attrs)"
| "step L st (Add ncalls dn items) = snd (add_s_impl L ncalls st dn items)"
| "step L st (Rename dn newrdn newsuperior) = snd (rename_s_impl L st dn newrdn newsuperior)"
| "step L st (Delete dn) = snd (delete_s_impl L st dn)"
| "step L st (Passwd user oldpw newpw) = snd (passwd_s_impl L st user oldpw newpw)"
| "step L st StartTls = start_tls_s st"
| "step L st Unbind = unbind st"
| "step L st (SetOption option invalue) = set_option st option invalue"

fun run :: "'f ldap_lib \<Rightarrow> state \<Rightarrow> call list \<Rightarrow> state" where
  "run L st [] = st"
| "run L st (c # cs) = run L (step L st c) cs"

text \<open>
  The calls that change an entry of the directory in place. The list a search returns
  holds the entry objects of the directory themselves (or, with an attribute list,
  their value lists), and \<open>add_async_result\<close> keeps that list; here a pending result
  is a value. The two agree as long as no entry is changed in place between the search
  and the fetch, that is, as long as none of these calls comes in between.
\<close>

fun changes_entries :: "call \<Rightarrow> bool" where
  "changes_entries (Modify dn mod_attrs) = True"
| "changes_entries (Rename dn newrdn newsuperior) = True"
| "changes_entries (Passwd user oldpw newpw) = True"
| "changes_entries c = False"

section \<open>The invariant of the entries\<close>

text \<open>
  No attribute of an entry holds an empty list of values, in any entry of the
  directory. A call respects the invariant from the outside when it is not an add that
  hands over an attribute with no values.
\<close>

definition entry_ok :: "entry \<Rightarrow> bool" where
  "entry_ok e = (\<forall>(a, vs) \<in> set e. vs \<noteq> [])"

definition store_ok :: "entry cidict \<Rightarrow> bool" where
  "store_ok d = (\<forall>(lk, k, e) \<in> set d. entry_ok e)"

fun call_ok :: "call \<Rightarrow> bool" where
  "call_ok (Add ncalls dn items) = (\<forall>(a, vs) \<in> set items. vs \<noteq> [])"
| "call_ok c = True"

section \<open>Concrete instances\<close>

text \<open>
  An instance of the library parameters and a small directory, for evaluating the
  operations on given inputs. Lower-casing maps the letters A to Z, and the DN check
  accepts the empty string and every string with an equals sign; on the strings used
  below Python and python-ldap decide the same. No hash scheme is available in it and
  every filter is unsupported.
\<close>

definition lower_char :: "char \<Rightarrow> char" where
  "lower_char c =
     (case map_of (zip ''ABCDEFGHIJKLMNOPQRSTUVWXYZ'' ''abcdefghijklmnopqrstuvwxyz'') c of
        None \<Rightarrow> c
      | Some d \<Rightarrow> d)"

definition lower :: "string \<Rightarrow> string" where
  "lower s = map lower_char s"

definition sample_lib :: "unit ldap_lib" where
  "sample_lib =
     \<lparr>str_lower = lower,
      str2dn_ok = (\<lambda>s. s = [] \<or> CHR ''='' \<in> set s),
      explode_dn = (\<lambda>s. Some (py_split CHR '','' s)),
      filter_parse = (\<lambda>s. Inl UnsupportedOp),
      filter_matches = (\<lambda>f dn e. Inr True),
      crypt = None,
      b64decode = (\<lambda>s. None),
      sha1 = (\<lambda>s. s)\<rparr>"

definition sample_directory :: "entry cidict" where
  "sample_directory =
     [(''cn=alice,dc=example,dc=com'', ''cn=alice,dc=example,dc=com'',
       [(''cn'', [Bytes ''alice'', Bytes ''al'']), (''userPassword'', [Bytes ''secret''])])]"

text \<open>
  The same instance with a filter module that knows one filter, the presence test
  \<^verbatim>\<open>(cn=*)\<close>: an entry matches it when it has the attribute \<open>cn\<close> with at least
  one value.
\<close>

definition parsing_lib :: "unit ldap_lib" where
  "parsing_lib =
     sample_lib
       \<lparr>filter_parse := (\<lambda>s. if s = ''(cn=*)'' then Inr () else Inl UnsupportedOp),
        filter_matches :=
          (\<lambda>f dn e. Inr (case map_of e ''cn'' of None \<Rightarrow> False | Some vs \<Rightarrow> vs \<noteq> []))\<rparr>"

section \<open>Facts about the instances\<close>

lemma sample_lower: "str_lower sample_lib = lower" "str_lower parsing_lib = lower"
  by (simp_all add: sample_lib_def parsing_lib_def)

lemma lower_char_idem: "lower_char (lower_char c) = lower_char c"
  unfolding lower_char_def by (simp split: option.splits if_splits)

lemma lower_idem: "lower (lower s) = lower s"
  by (simp add: lower_def lower_char_idem)

lemma sample_lower_idem: "str_lower sample_lib (str_lower sample_lib s) = str_lower sample_lib s"
  by (simp add: sample_lower lower_idem)

lemma sample_alice_valid: "str2dn_ok sample_lib ''cn=alice,dc=example,dc=com''"
  by (simp add: sample_lib_def)

lemma sample_ghost_valid: "str2dn_ok sample_lib ''cn=ghost,dc=example,dc=com''"
  by (simp add: sample_lib_def)

lemma sample_ghost_absent:
  "\<not> cidict_contains (str_lower sample_lib) (directory (init sample_directory))
       ''cn=ghost,dc=example,dc=com''"
  by (simp add: cidict_contains_def init_def sample_directory_def sample_lower lower_def
      lower_char_def)

lemma sample_alice_entry:
  "cidict_getitem (str_lower sample_lib) (directory (init sample_directory))
     ''cn=alice,dc=example,dc=com''
     = Some [(''cn'', [Bytes ''alice'', Bytes ''al'']), (''userPassword'', [Bytes ''secret''])]"
  by (simp add: cidict_getitem_def init_def sample_directory_def sample_lower lower_def
      lower_char_def)

section \<open>Search on an absent base\<close>

text \<open>
  C1. A search whose base DN parses but is not a key of the directory fails with
  \<open>NO_SUCH_OBJECT\<close>, for every scope, filter string, attribute list and flag, and
  whatever the filter module would do with the filter string: the check stands before
  the filter is parsed. The asynchronous \<open>search\<close> fails the same way and issues no
  ticket.
\<close>

theorem search_absent_base:
  assumes "str2dn_ok L base" and "\<not> cidict_contains (str_lower L) (directory st) base"
  shows "search_s_impl L st base scope filterstr attrlist attrsonly = Inl NO_SUCH_OBJECT
       \<and> search_s_impl (L\<lparr>filter_parse := p, filter_matches := m\<rparr>) st base scope filterstr
            attrlist attrsonly = Inl NO_SUCH_OBJECT
       \<and> search_s L st base scope filterstr attrlist attrsonly = Inl NO_SUCH_OBJECT
       \<and> search L st base scope filterstr attrlist attrsonly = (Inl NO_SUCH_OBJECT, st)"
  using assms by (simp add: search_s_impl_def search_s_def search_def)

theorem search_absent_base_witness:
  "str2dn_ok sample_lib ''cn=ghost,dc=example,dc=com''
   \<and> \<not> cidict_contains (str_lower sample_lib) (directory (init sample_directory))
       ''cn=ghost,dc=example,dc=com''
   \<and> search_s_impl sample_lib (init sample_directory) ''cn=ghost,dc=example,dc=com''
         SCOPE_BASE ''(cn~=al)'' None 0 = Inl NO_SUCH_OBJECT
   \<and> search sample_lib (init sample_directory) ''cn=ghost,dc=example,dc=com''
         SCOPE_BASE ''(cn~=al)'' None 0 = (Inl NO_SUCH_OBJECT, init sample_directory)"
proof -
  have v: "str2dn_ok sample_lib ''cn=ghost,dc=example,dc=com''"
    by (simp add: sample_lib_def)
  have a: "\<not> cidict_contains (str_lower sample_lib) (directory (init sample_directory))
      ''cn=ghost,dc=example,dc=com''"
    by (simp add: cidict_contains_def init_def sample_directory_def sample_lower lower_def
        lower_char_def)
  from search_absent_base [OF v a] v a show ?thesis by simp
qed

section \<open>Facts about the containers\<close>

lemma cidict_contains_iff: "cidict_contains lw d k \<longleftrightarrow> cidict_getitem lw d k \<noteq> None"
  by (simp add: cidict_contains_def cidict_getitem_def split: option.splits)

lemma getitem_setitem:
  "cidict_getitem lw (cidict_setitem lw d k v) k' =
     (if lw k' = lw k then Some v else cidict_getitem lw d k')"
  by (simp add: cidict_getitem_def cidict_setitem_def update_conv')

lemma getitem_delitem:
  "cidict_getitem lw (cidict_delitem lw d k) k' =
     (if lw k' = lw k then None else cidict_getitem lw d k')"
  by (simp add: cidict_getitem_def cidict_delitem_def delete_conv')

lemma getitem_mutate:
  "cidict_getitem lw (cidict_mutate lw d k v) k' =
     (if lw k' = lw k then map_option (\<lambda>x. v) (cidict_getitem lw d k)
      else cidict_getitem lw d k')"
  by (simp add: cidict_getitem_def cidict_mutate_def map_of_map_entry
      split: option.splits prod.splits)

lemma setitem_key: "k \<in> set (cidict_keys (cidict_setitem lw d k v))"
proof -
  have "(lw k, k, v) \<in> set (AList.update (lw k) (k, v) d)"
    by (metis update_conv' fun_upd_same map_of_SomeD)
  then show ?thesis
    unfolding cidict_keys_def cidict_setitem_def by force
qed

lemma delitem_key:
  assumes "lw k \<noteq> lw k'"
  shows "k \<in> set (cidict_keys (cidict_delitem lw (cidict_setitem lw d k v) k'))"
proof -
  have "(lw k, k, v) \<in> set (AList.update (lw k) (k, v) d)"
    by (metis update_conv' fun_upd_same map_of_SomeD)
  then show ?thesis
    using assms unfolding cidict_keys_def cidict_delitem_def cidict_setitem_def AList.delete_eq
    by force
qed

section \<open>Simple bind\<close>

lemma compare_absent:
  "str2dn_ok L dn \<Longrightarrow> \<not> cidict_contains (str_lower L) (directory st) dn \<Longrightarrow>
     compare_s_impl L st dn attr v = Inl NO_SUCH_OBJECT"
  by (simp add: compare_s_impl_def cidict_contains_iff)

text \<open>
  C3. The bind with empty identity and empty credential succeeds in every state. No bind
  ever fails with \<open>NO_SUCH_OBJECT\<close>. A bind that is not anonymous fails with
  \<open>INVALID_CREDENTIALS\<close>, carrying identity and credential, when the identity is a DN
  that parses and is not in the directory, and when the compare of the credential
  attribute answers 0. When the compare answers 1, and on every success, the result is
  \<open>(97, [])\<close> and \<open>bound_as\<close> is the identity; nothing else of the state changes.
\<close>

theorem simple_bind:
  "simple_bind_s L st [] [] = (Inr (97, []), st\<lparr>bound_as := Some []\<rparr>)
   \<and> fst (simple_bind_s L st who cred) \<noteq> Inl NO_SUCH_OBJECT
   \<and> (\<not> (who = [] \<and> cred = []) \<and> str2dn_ok L who
        \<and> \<not> cidict_contains (str_lower L) (directory st) who
        \<longrightarrow> simple_bind_s L st who cred = (Inl (INVALID_CREDENTIALS (who @ '':'' @ cred)), st))
   \<and> (\<not> (who = [] \<and> cred = []) \<and> compare_s_impl L st who ''userPassword'' cred = Inr 0
        \<longrightarrow> simple_bind_s L st who cred = (Inl (INVALID_CREDENTIALS (who @ '':'' @ cred)), st))
   \<and> (\<forall>r. compare_s_impl L st who ''userPassword'' cred = Inr r \<and> r \<noteq> 0
        \<longrightarrow> simple_bind_s L st who cred = (Inr (97, []), st\<lparr>bound_as := Some who\<rparr>))
   \<and> (\<forall>r. fst (simple_bind_s L st who cred) = Inr r
        \<longrightarrow> simple_bind_s L st who cred = (Inr (97, []), st\<lparr>bound_as := Some who\<rparr>))"
proof (intro conjI allI impI)
  show "simple_bind_s L st [] [] = (Inr (97, []), st\<lparr>bound_as := Some []\<rparr>)"
    by (simp add: simple_bind_s_def)
  show "fst (simple_bind_s L st who cred) \<noteq> Inl NO_SUCH_OBJECT"
    by (auto simp add: simple_bind_s_def Let_def split: sum.splits error.splits)
  show "simple_bind_s L st who cred = (Inl (INVALID_CREDENTIALS (who @ '':'' @ cred)), st)"
    if "\<not> (who = [] \<and> cred = []) \<and> str2dn_ok L who \<and> \<not> cidict_contains (str_lower L) (directory
        st) who"
    using that compare_absent [of L who st "''userPassword''" cred]
    by (auto simp add: simple_bind_s_def)
  show "simple_bind_s L st who cred = (Inl (INVALID_CREDENTIALS (who @ '':'' @ cred)), st)"
    if "\<not> (who = [] \<and> cred = []) \<and> compare_s_impl L st who ''userPassword'' cred = Inr 0"
    using that by (auto simp add: simple_bind_s_def)
  show "simple_bind_s L st who cred = (Inr (97, []), st\<lparr>bound_as := Some who\<rparr>)"
    if "compare_s_impl L st who ''userPassword'' cred = Inr r \<and> r \<noteq> 0" for r
    using that by (auto simp add: simple_bind_s_def)
  show "simple_bind_s L st who cred = (Inr (97, []), st\<lparr>bound_as := Some who\<rparr>)"
    if "fst (simple_bind_s L st who cred) = Inr r" for r
    using that
    by (auto simp add: simple_bind_s_def Let_def split: sum.splits error.splits if_splits)
qed

theorem simple_bind_witness:
  "simple_bind_s sample_lib (init []) [] [] = (Inr (97, []), (init [])\<lparr>bound_as := Some []\<rparr>)
   \<and> simple_bind_s sample_lib (init sample_directory) ''cn=ghost,dc=example,dc=com'' ''secret''
       = (Inl (INVALID_CREDENTIALS ''cn=ghost,dc=example,dc=com:secret''), init sample_directory)
   \<and> simple_bind_s sample_lib (init sample_directory) ''cn=alice,dc=example,dc=com'' ''guess''
       = (Inl (INVALID_CREDENTIALS ''cn=alice,dc=example,dc=com:guess''), init sample_directory)
   \<and> simple_bind_s sample_lib (init sample_directory) ''cn=alice,dc=example,dc=com'' ''secret''
       = (Inr (97, []),
          (init sample_directory)\<lparr>bound_as := Some ''cn=alice,dc=example,dc=com''\<rparr>)"
proof -
  have bad: "compare_s_impl sample_lib (init sample_directory) ''cn=alice,dc=example,dc=com''
               ''userPassword'' ''guess'' = Inr 0"
    by (simp add: compare_s_impl_def sample_alice_valid sample_alice_entry
        compare_password_def PASSWORD_RE_match_def)
  have good: "compare_s_impl sample_lib (init sample_directory) ''cn=alice,dc=example,dc=com''
               ''userPassword'' ''secret'' = Inr 1"
    by (simp add: compare_s_impl_def sample_alice_valid sample_alice_entry
        compare_password_def PASSWORD_RE_match_def)
  have c1: "simple_bind_s sample_lib (init []) [] []
              = (Inr (97, []), (init [])\<lparr>bound_as := Some []\<rparr>)"
    using simple_bind [of sample_lib "init []" "[]" "[]"] by blast
  have c2: "simple_bind_s sample_lib (init sample_directory) ''cn=ghost,dc=example,dc=com''
              ''secret''
            = (Inl (INVALID_CREDENTIALS (''cn=ghost,dc=example,dc=com'' @ '':'' @ ''secret'')),
               init sample_directory)"
    using simple_bind [of sample_lib "init sample_directory" "''cn=ghost,dc=example,dc=com''"
        "''secret''"] sample_ghost_valid sample_ghost_absent
    by blast
  have c3: "simple_bind_s sample_lib (init sample_directory) ''cn=alice,dc=example,dc=com''
              ''guess''
            = (Inl (INVALID_CREDENTIALS (''cn=alice,dc=example,dc=com'' @ '':'' @ ''guess'')),
               init sample_directory)"
    using simple_bind [of sample_lib "init sample_directory" "''cn=alice,dc=example,dc=com''"
        "''guess''"] bad
    by blast
  have c4: "simple_bind_s sample_lib (init sample_directory) ''cn=alice,dc=example,dc=com''
              ''secret''
            = (Inr (97, []),
               (init sample_directory)\<lparr>bound_as := Some ''cn=alice,dc=example,dc=com''\<rparr>)"
    using simple_bind [of sample_lib "init sample_directory" "''cn=alice,dc=example,dc=com''"
        "''secret''"] good
    by (metis zero_neq_one)
  from c1 c2 c3 c4 show ?thesis by simp
qed

section \<open>Modify on an absent DN\<close>

lemma modify_absent_nonempty:
  assumes "str2dn_ok L dn" and "\<not> cidict_contains (str_lower L) (directory st) dn" and "mods \<noteq> []"
  shows "modify_s_impl L st dn mods = (Inl NO_SUCH_OBJECT, st)"
proof -
  obtain op key mv rest where m: "mods = (op, key, mv) # rest"
    using assms(3) by (cases mods) auto
  from assms(2) have "cidict_getitem (str_lower L) (directory st) dn = None"
    by (simp add: cidict_contains_iff)
  with assms(1) m show ?thesis by (simp add: modify_s_impl_def)
qed

text \<open>
  C5. The entry is looked up in the body of the loop over the modifications, so an empty
  list of modifications never reaches the lookup: on a DN that parses and is not in the
  directory the operation returns \<open>(103, [])\<close> and leaves the state as it is. With at
  least one modification it fails with \<open>NO_SUCH_OBJECT\<close> (lemma
  \<open>modify_absent_nonempty\<close>).
\<close>

theorem modify_absent_empty_list_succeeds:
  "str2dn_ok sample_lib ''cn=ghost,dc=example,dc=com''
   \<and> \<not> cidict_contains (str_lower sample_lib) (directory (init sample_directory))
       ''cn=ghost,dc=example,dc=com''
   \<and> modify_s_impl sample_lib (init sample_directory) ''cn=ghost,dc=example,dc=com'' []
       = (Inr (103, []), init sample_directory)"
  by (simp add: modify_s_impl_def sample_ghost_valid sample_ghost_absent)

section \<open>The rename scenario\<close>

text \<open>
  C7. In a directory that holds \<open>cn=alice,dc=example,dc=com\<close> with \<open>cn = [alice, al]\<close>
  and has no entry at \<open>cn=al,dc=example,dc=com\<close>, renaming the entry to \<open>cn=al\<close>
  with no new superior returns \<open>(109, [])\<close>. Afterwards the entry stands under the key
  \<open>cn=al,dc=example,dc=com\<close>, its \<open>cn\<close> is exactly \<open>[al]\<close>, its other attributes
  are as before, and the old DN is no longer a key.
\<close>

theorem rename_alice_to_al:
  assumes "str2dn_ok L ''cn=alice,dc=example,dc=com''" and "str2dn_ok L ''cn=al''"
    and "cidict_getitem (str_lower L) (directory st) ''cn=alice,dc=example,dc=com'' = Some e"
    and "map_of e ''cn'' = Some [Bytes ''alice'', Bytes ''al'']"
    and "\<not> cidict_contains (str_lower L) (directory st) ''cn=al,dc=example,dc=com''"
  shows "case rename_s_impl L st ''cn=alice,dc=example,dc=com'' ''cn=al'' None of
           (r, st') \<Rightarrow>
             r = Inr (109, [])
             \<and> cidict_getitem (str_lower L) (directory st') ''cn=al,dc=example,dc=com''
                  = Some (AList.update ''cn'' [Bytes ''al''] e)
             \<and> map_of (AList.update ''cn'' [Bytes ''al''] e) ''cn'' = Some [Bytes ''al'']
             \<and> (\<forall>a. a \<noteq> ''cn'' \<longrightarrow>
                    map_of (AList.update ''cn'' [Bytes ''al''] e) a = map_of e a)
             \<and> ''cn=al,dc=example,dc=com'' \<in> set (cidict_keys (directory st'))
             \<and> cidict_getitem (str_lower L) (directory st') ''cn=alice,dc=example,dc=com'' = None
             \<and> \<not> cidict_contains (str_lower L) (directory st') ''cn=alice,dc=example,dc=com''"
proof -
  have re: "rename_entry e ''cn'' (Bytes ''alice'') ''cn'' (Bytes ''al'')
              = Inr (AList.update ''cn'' [Bytes ''al''] e)"
    using assms(4) by (simp add: rename_entry_def remove_value_def update_conv')
  have ne: "str_lower L ''cn=al,dc=example,dc=com''
              \<noteq> str_lower L ''cn=alice,dc=example,dc=com''"
    using assms(3,5) by (auto simp add: cidict_contains_def cidict_getitem_def)
  have key: "''cn=al,dc=example,dc=com'' \<in> set (cidict_keys (cidict_delitem (str_lower L)
               (cidict_setitem (str_lower L) (directory st) ''cn=al,dc=example,dc=com'' x)
               ''cn=alice,dc=example,dc=com''))" for x
    by (rule delitem_key [where lw = "str_lower L"]) (rule ne)
  show ?thesis
    using assms re ne key
    by (simp add: rename_s_impl_def getitem_setitem getitem_delitem cidict_contains_iff
        update_conv')
qed

theorem rename_alice_to_al_witness:
  "rename_s_impl sample_lib (init sample_directory) ''cn=alice,dc=example,dc=com'' ''cn=al'' None
     = (Inr (109, []),
        init [(''cn=al,dc=example,dc=com'', ''cn=al,dc=example,dc=com'',
               [(''cn'', [Bytes ''al'']), (''userPassword'', [Bytes ''secret''])])])"
proof -
  have v: "str2dn_ok sample_lib ''cn=al''"
    by (simp add: sample_lib_def)
  have m: "map_of [(''cn'', [Bytes ''alice'', Bytes ''al'']), (''userPassword'', [Bytes
      ''secret''])]
             ''cn'' = Some [Bytes ''alice'', Bytes ''al'']"
    by simp
  have a: "\<not> cidict_contains (str_lower sample_lib) (directory (init sample_directory))
      ''cn=al,dc=example,dc=com''"
    by (simp add: cidict_contains_def init_def sample_directory_def sample_lower lower_def
        lower_char_def)
  have run: "rename_s_impl sample_lib (init sample_directory) ''cn=alice,dc=example,dc=com''
               ''cn=al'' None
             = (Inr (109, []),
                init [(''cn=al,dc=example,dc=com'', ''cn=al,dc=example,dc=com'',
                       [(''cn'', [Bytes ''al'']), (''userPassword'', [Bytes ''secret''])])])"
    by (simp add: rename_s_impl_def rename_entry_def remove_value_def sample_lib_def
        cidict_getitem_def cidict_contains_def cidict_setitem_def cidict_delitem_def
        init_def sample_directory_def sample_lower lower_def lower_char_def Let_def)
  from rename_alice_to_al [OF sample_alice_valid v sample_alice_entry m a] run
  show ?thesis by simp
qed

section \<open>The password verifier\<close>

lemma no_brace_untagged: "(\<And>rest. v \<noteq> CHR ''{'' # rest) \<Longrightarrow> PASSWORD_RE_match v = None"
  by (cases v) (auto simp: PASSWORD_RE_match_def)

text \<open>
  C8, as the code has it. A stored value that carries no scheme tag at all (the pattern
  does not match it) is compared literally: the answer is true exactly when it equals
  the password. A stored value with a tag other than \<open>CRYPT\<close> and \<open>SSHA\<close> never
  verifies, and neither does a \<open>CRYPT\<close> value when \<^verbatim>\<open>crypt\<close> is not available.
\<close>

theorem compare_password_untagged:
  "(PASSWORD_RE_match v = None \<longrightarrow> compare_password L password v = Inr (v = password))
   \<and> (\<forall>scheme raw. PASSWORD_RE_match v = Some (scheme, raw) \<and> scheme \<noteq> ''CRYPT''
          \<and> scheme \<noteq> ''SSHA'' \<longrightarrow> compare_password L password v = Inr False)
   \<and> (\<forall>raw. PASSWORD_RE_match v = Some (''CRYPT'', raw) \<and> crypt L = None
          \<longrightarrow> compare_password L password v = Inr False)"
  by (auto simp add: compare_password_def Let_def split: option.splits)

theorem compare_password_untagged_witness:
  "PASSWORD_RE_match ''secret'' = None
   \<and> compare_password sample_lib ''secret'' ''secret'' = Inr True
   \<and> compare_password sample_lib ''Secret'' ''secret'' = Inr False
   \<and> PASSWORD_RE_match ''{SMD5}abc'' = Some (''SMD5'', ''abc'')
   \<and> compare_password sample_lib ''abc'' ''{SMD5}abc'' = Inr False"
proof -
  have n: "PASSWORD_RE_match ''secret'' = None"
    by (simp add: PASSWORD_RE_match_def)
  have t: "PASSWORD_RE_match ''{SMD5}abc'' = Some (''SMD5'', ''abc'')"
    by (simp add: PASSWORD_RE_match_def)
  have c1: "compare_password sample_lib ''secret'' ''secret'' = Inr (''secret'' = ''secret'')"
    using compare_password_untagged [of "''secret''" sample_lib "''secret''"] n by blast
  have c2: "compare_password sample_lib ''Secret'' ''secret'' = Inr (''secret'' = ''Secret'')"
    using compare_password_untagged [of "''secret''" sample_lib "''Secret''"] n by blast
  have c3: "compare_password sample_lib ''abc'' ''{SMD5}abc'' = Inr False"
    using compare_password_untagged [of "''{SMD5}abc''" sample_lib "''abc''"] t by simp
  from n t c1 c2 c3 show ?thesis by simp
qed

text \<open>
  The claim as it is written fails on a value with a tag the verifier does not know: the
  stored value \<open>{MD5}abc\<close> carries neither \<open>{CRYPT}\<close> nor \<open>{SSHA}\<close>, the
  candidate is the very same string, and the verifier answers false.
\<close>

theorem compare_password_unknown_tag_counterexample:
  "PASSWORD_RE_match ''{MD5}abc'' = Some (''MD5'', ''abc'')
   \<and> ''{MD5}abc'' = ''{MD5}abc''
   \<and> compare_password sample_lib ''{MD5}abc'' ''{MD5}abc'' = Inr False"
  by (simp add: compare_password_def PASSWORD_RE_match_def sample_lib_def)

section \<open>Changing a password\<close>

text \<open>
  C9. For a target DN that parses: when it is not in the directory the operation fails
  with \<open>NO_SUCH_OBJECT\<close> and changes nothing. When no old password is given it
  returns normally, the target entry's \<open>userPassword\<close> is the one-element list of the
  new password whatever it was before, the entry's other attributes and the other
  entries are as before. When an old password is given and the entry has a first
  \<open>userPassword\<close> value, the operation does exactly that replacement if the old
  password equals the first stored value, as values, and nothing otherwise: the
  verifier plays no part.
\<close>

theorem passwd_change:
  assumes "str2dn_ok L user"
  shows "(\<not> cidict_contains (str_lower L) (directory st) user \<longrightarrow>
            passwd_s_impl L st user oldpw newpw = (Inl NO_SUCH_OBJECT, st))
       \<and> (\<forall>e. cidict_getitem (str_lower L) (directory st) user = Some e \<longrightarrow>
            (\<exists>st' e'. passwd_s_impl L st user None newpw = (Inr (), st')
               \<and> cidict_getitem (str_lower L) (directory st') user = Some e'
               \<and> map_of e' ''userPassword'' = Some [newpw]
               \<and> (\<forall>a. a \<noteq> ''userPassword'' \<longrightarrow> map_of e' a = map_of e a)
               \<and> (\<forall>k. str_lower L k \<noteq> str_lower L user \<longrightarrow>
                      cidict_getitem (str_lower L) (directory st') k
                        = cidict_getitem (str_lower L) (directory st) k)))
       \<and> (\<forall>e first others old.
            cidict_getitem (str_lower L) (directory st) user = Some e
            \<and> map_of e ''userPassword'' = Some (first # others) \<longrightarrow>
            passwd_s_impl L st user (Some old) newpw =
              (if first = old then passwd_s_impl L st user None newpw else (Inr (), st)))"
  using assms
  by (auto simp add: passwd_s_impl_def cidict_contains_iff getitem_mutate update_conv')

theorem passwd_change_witness:
  "passwd_s_impl sample_lib (init sample_directory) ''cn=ghost,dc=example,dc=com''
     (Some (Bytes ''secret'')) (Bytes ''new'') = (Inl NO_SUCH_OBJECT, init sample_directory)
   \<and> passwd_s_impl sample_lib (init sample_directory) ''cn=alice,dc=example,dc=com''
       None (Bytes ''new'')
       = (Inr (), init [(''cn=alice,dc=example,dc=com'', ''cn=alice,dc=example,dc=com'',
            [(''cn'', [Bytes ''alice'', Bytes ''al'']), (''userPassword'', [Bytes ''new''])])])
   \<and> passwd_s_impl sample_lib (init sample_directory) ''cn=alice,dc=example,dc=com''
       (Some (Bytes ''secret'')) (Bytes ''new'')
       = (Inr (), init [(''cn=alice,dc=example,dc=com'', ''cn=alice,dc=example,dc=com'',
            [(''cn'', [Bytes ''alice'', Bytes ''al'']), (''userPassword'', [Bytes ''new''])])])"
proof -
  have run: "passwd_s_impl sample_lib (init sample_directory) ''cn=alice,dc=example,dc=com''
               None (Bytes ''new'')
             = (Inr (), init [(''cn=alice,dc=example,dc=com'', ''cn=alice,dc=example,dc=com'',
                  [(''cn'', [Bytes ''alice'', Bytes ''al'']),
                   (''userPassword'', [Bytes ''new''])])])"
    by (simp add: passwd_s_impl_def sample_alice_valid sample_alice_entry)
       (simp add: cidict_mutate_def init_def sample_directory_def sample_lower lower_def
           lower_char_def)
  have m: "map_of [(''cn'', [Bytes ''alice'', Bytes ''al'']), (''userPassword'', [Bytes
      ''secret''])]
             ''userPassword'' = Some (Bytes ''secret'' # [])"
    by simp
  have c1: "passwd_s_impl sample_lib (init sample_directory) ''cn=ghost,dc=example,dc=com''
              (Some (Bytes ''secret'')) (Bytes ''new'') = (Inl NO_SUCH_OBJECT, init
                  sample_directory)"
    using passwd_change [OF sample_ghost_valid, of "init sample_directory"
        "Some (Bytes ''secret'')" "Bytes ''new''"] sample_ghost_absent
    by blast
  have c3: "passwd_s_impl sample_lib (init sample_directory) ''cn=alice,dc=example,dc=com''
              (Some (Bytes ''secret'')) (Bytes ''new'')
            = passwd_s_impl sample_lib (init sample_directory) ''cn=alice,dc=example,dc=com''
                None (Bytes ''new'')"
    using passwd_change [OF sample_alice_valid, of "init sample_directory" None "Bytes ''new''"]
      sample_alice_entry m
    by simp
  from c1 c3 run show ?thesis by simp
qed

text \<open>
  C10. For a target DN that parses and an entry whose \<open>userPassword\<close> has a first
  value, an old password that differs from that value makes the operation return
  normally with the whole state, the entry included, exactly as it was.
\<close>

theorem passwd_wrong_old_password_unchanged:
  assumes "str2dn_ok L user"
    and "cidict_getitem (str_lower L) (directory st) user = Some e"
    and "map_of e ''userPassword'' = Some (first # others)"
    and "first \<noteq> old"
  shows "passwd_s_impl L st user (Some old) newpw = (Inr (), st)"
  using assms by (simp add: passwd_s_impl_def)

theorem passwd_wrong_old_password_unchanged_witness:
  "passwd_s_impl sample_lib (init sample_directory) ''cn=alice,dc=example,dc=com''
     (Some (Bytes ''guess'')) (Bytes ''new'') = (Inr (), init sample_directory)"
proof -
  have m: "map_of [(''cn'', [Bytes ''alice'', Bytes ''al'']), (''userPassword'', [Bytes
      ''secret''])]
             ''userPassword'' = Some (Bytes ''secret'' # [])"
    by simp
  have n: "Bytes ''secret'' \<noteq> Bytes ''guess''"
    by simp
  from passwd_wrong_old_password_unchanged [OF sample_alice_valid sample_alice_entry m n]
  show ?thesis .
qed

section \<open>Add and the case of the DN\<close>

lemma build_entry_ok:
  "\<forall>(a, vs) \<in> set items. \<not> has_non_bytes vs \<Longrightarrow>
     build_entry items acc = Inr (fold (\<lambda>(a, vs). AList.update a vs) items acc)"
  by (induction items arbitrary: acc) auto

lemma build_entry_non_bytes:
  "(a, vs) \<in> set items \<Longrightarrow> has_non_bytes vs \<Longrightarrow> build_entry items acc = Inl TypeError"
  by (induction items arbitrary: acc) auto

lemma build_entry_type_error:
  "\<not> (\<forall>(a, vs) \<in> set items. \<not> has_non_bytes vs) \<Longrightarrow> build_entry items acc = Inl TypeError"
  using build_entry_non_bytes by fastforce

lemma map_of_fold_update:
  "map_of (fold (\<lambda>(a, vs). AList.update a vs) items acc) k =
     (case map_of (rev items) k of None \<Rightarrow> map_of acc k | Some vs \<Rightarrow> Some vs)"
  by (induction items arbitrary: acc) (auto simp: update_conv' map_add_def split: option.splits)

text \<open>
  C6, as the code has it. For a DN that parses, the add first checks the values of the
  record: when one of them is not a byte string it fails with \<open>TypeError\<close>, whether
  the DN is in the directory or not. When all of them are byte strings and the
  directory has an entry under a DN that lower-cases to the same string (the same DN,
  or one that differs in letter case only), the add fails with \<open>ALREADY_EXISTS\<close> and
  changes nothing. When all of them are byte strings and the directory has no such
  entry, the add returns \<open>(105, [], ncalls, [])\<close> and the new entry stands under the
  lower-cased DN, which is its key: it is found there, and under the DN itself since
  lower-casing a lower-cased string changes nothing; it holds the given attributes (a
  later item wins over an earlier one of the same name), and every other entry is as
  before.
\<close>

theorem add_case_insensitive:
  assumes "str2dn_ok L dn"
  shows "(\<not> (\<forall>(a, vs) \<in> set items. \<not> has_non_bytes vs) \<longrightarrow>
            add_s_impl L n st dn items = (Inl TypeError, st))
       \<and> ((\<forall>(a, vs) \<in> set items. \<not> has_non_bytes vs) \<longrightarrow>
            (\<forall>dn' e. cidict_getitem (str_lower L) (directory st) dn' = Some e
                      \<and> str_lower L dn' = str_lower L dn \<longrightarrow>
               add_s_impl L n st dn items = (Inl ALREADY_EXISTS, st))
            \<and> (\<not> cidict_contains (str_lower L) (directory st) dn \<longrightarrow>
                 (\<exists>st' e. add_s_impl L n st dn items = (Inr (105, [], n, []), st')
                    \<and> cidict_getitem (str_lower L) (directory st') (str_lower L dn) = Some e
                    \<and> (str_lower L (str_lower L dn) = str_lower L dn \<longrightarrow>
                         cidict_getitem (str_lower L) (directory st') dn = Some e)
                    \<and> (\<forall>a. map_of e a = map_of (rev items) a)
                    \<and> str_lower L dn \<in> set (cidict_keys (directory st'))
                    \<and> (\<forall>k. str_lower L k \<noteq> str_lower L (str_lower L dn) \<longrightarrow>
                           cidict_getitem (str_lower L) (directory st') k
                             = cidict_getitem (str_lower L) (directory st) k))))"
proof (intro conjI allI impI)
  assume "\<not> (\<forall>(a, vs) \<in> set items. \<not> has_non_bytes vs)"
  with assms show "add_s_impl L n st dn items = (Inl TypeError, st)"
    by (simp add: add_s_impl_def build_entry_type_error)
next
  fix dn' e
  assume typed: "\<forall>(a, vs) \<in> set items. \<not> has_non_bytes vs"
    and "cidict_getitem (str_lower L) (directory st) dn' = Some e
           \<and> str_lower L dn' = str_lower L dn"
  then have "cidict_getitem (str_lower L) (directory st) dn = Some e"
    by (auto simp add: cidict_getitem_def)
  with assms typed show "add_s_impl L n st dn items = (Inl ALREADY_EXISTS, st)"
    by (simp add: add_s_impl_def build_entry_ok)
next
  assume typed: "\<forall>(a, vs) \<in> set items. \<not> has_non_bytes vs"
    and "\<not> cidict_contains (str_lower L) (directory st) dn"
  then have none: "cidict_getitem (str_lower L) (directory st) dn = None"
    by (simp add: cidict_contains_iff)
  let ?e = "fold (\<lambda>(a, vs). AList.update a vs) items []"
  let ?st' = "st\<lparr>directory :=
                   cidict_setitem (str_lower L) (directory st) (str_lower L dn) ?e\<rparr>"
  have run: "add_s_impl L n st dn items = (Inr (105, [], n, []), ?st')"
    using assms typed none by (simp add: add_s_impl_def build_entry_ok)
  have get: "cidict_getitem (str_lower L) (directory ?st') (str_lower L dn) = Some ?e"
    by (simp add: getitem_setitem)
  have get': "str_lower L (str_lower L dn) = str_lower L dn \<longrightarrow>
                cidict_getitem (str_lower L) (directory ?st') dn = Some ?e"
    by (simp add: getitem_setitem)
  have attrs: "\<forall>a. map_of ?e a = map_of (rev items) a"
    by (simp add: map_of_fold_update split: option.splits)
  have key: "str_lower L dn \<in> set (cidict_keys (directory ?st'))"
    by (simp add: setitem_key)
  have others: "\<forall>k. str_lower L k \<noteq> str_lower L (str_lower L dn) \<longrightarrow>
                  cidict_getitem (str_lower L) (directory ?st') k
                    = cidict_getitem (str_lower L) (directory st) k"
    by (simp add: getitem_setitem)
  from run get get' attrs key others
  show "\<exists>st' e. add_s_impl L n st dn items = (Inr (105, [], n, []), st')
          \<and> cidict_getitem (str_lower L) (directory st') (str_lower L dn) = Some e
          \<and> (str_lower L (str_lower L dn) = str_lower L dn \<longrightarrow>
               cidict_getitem (str_lower L) (directory st') dn = Some e)
          \<and> (\<forall>a. map_of e a = map_of (rev items) a)
          \<and> str_lower L dn \<in> set (cidict_keys (directory st'))
          \<and> (\<forall>k. str_lower L k \<noteq> str_lower L (str_lower L dn) \<longrightarrow>
                 cidict_getitem (str_lower L) (directory st') k
                   = cidict_getitem (str_lower L) (directory st) k)"
    by blast
qed

theorem add_case_insensitive_witness:
  "add_s_impl sample_lib 3 (init sample_directory) ''CN=Alice,DC=Example,DC=Com''
     [(''cn'', [Bytes ''alice''])] = (Inl ALREADY_EXISTS, init sample_directory)
   \<and> add_s_impl sample_lib 3 (init sample_directory) ''cn=Bob,dc=example,dc=com''
       [(''cn'', [Bytes ''bob''])]
     = (Inr (105, [], 3, []),
        init (sample_directory @
              [(''cn=bob,dc=example,dc=com'', ''cn=bob,dc=example,dc=com'',
                [(''cn'', [Bytes ''bob''])])]))
   \<and> add_s_impl sample_lib 3 (init sample_directory) ''cn=Bob,dc=example,dc=com''
       [(''cn'', [Text ''bob''])] = (Inl TypeError, init sample_directory)"
proof -
  have v: "str2dn_ok sample_lib ''CN=Alice,DC=Example,DC=Com''"
    and vb: "str2dn_ok sample_lib ''cn=Bob,dc=example,dc=com''"
    by (simp_all add: sample_lib_def)
  have t: "\<forall>(a, vs) \<in> set [(''cn'', [Bytes ''alice''])]. \<not> has_non_bytes vs"
    by (simp add: has_non_bytes_def)
  have nt: "\<not> (\<forall>(a, vs) \<in> set [(''cn'', [Text ''bob''])]. \<not> has_non_bytes vs)"
    by (simp add: has_non_bytes_def)
  have l: "str_lower sample_lib ''cn=alice,dc=example,dc=com''
             = str_lower sample_lib ''CN=Alice,DC=Example,DC=Com''"
    by (simp add: sample_lower lower_def lower_char_def)
  have c1: "add_s_impl sample_lib 3 (init sample_directory) ''CN=Alice,DC=Example,DC=Com''
              [(''cn'', [Bytes ''alice''])] = (Inl ALREADY_EXISTS, init sample_directory)"
    using add_case_insensitive [OF v, where items = "[(''cn'', [Bytes ''alice''])]"
        and st = "init sample_directory" and n = 3]
      t sample_alice_entry l
    by blast
  have c2: "add_s_impl sample_lib 3 (init sample_directory) ''cn=Bob,dc=example,dc=com''
              [(''cn'', [Bytes ''bob''])]
            = (Inr (105, [], 3, []),
               init (sample_directory @
                     [(''cn=bob,dc=example,dc=com'', ''cn=bob,dc=example,dc=com'',
                       [(''cn'', [Bytes ''bob''])])]))"
    by (simp add: add_s_impl_def sample_lib_def has_non_bytes_def cidict_getitem_def
        cidict_setitem_def init_def sample_directory_def lower_def lower_char_def)
  have c3: "add_s_impl sample_lib 3 (init sample_directory) ''cn=Bob,dc=example,dc=com''
              [(''cn'', [Text ''bob''])] = (Inl TypeError, init sample_directory)"
    using add_case_insensitive [OF vb, where items = "[(''cn'', [Text ''bob''])]"
        and st = "init sample_directory" and n = 3]
      nt
    by blast
  from c1 c2 c3 show ?thesis by simp
qed

text \<open>
  The claim as it is written fails on a record with a value that is not a byte string:
  the directory holds \<open>cn=alice,dc=example,dc=com\<close>, the new DN differs from it in
  letter case only, and the add fails with \<open>TypeError\<close>, not with
  \<open>ALREADY_EXISTS\<close>, because the values are checked before the directory is looked at.
\<close>

theorem add_type_check_first_counterexample:
  "str2dn_ok sample_lib ''CN=Alice,DC=Example,DC=Com''
   \<and> cidict_getitem (str_lower sample_lib) (directory (init sample_directory))
        ''cn=alice,dc=example,dc=com''
       = Some [(''cn'', [Bytes ''alice'', Bytes ''al'']), (''userPassword'', [Bytes ''secret''])]
   \<and> str_lower sample_lib ''CN=Alice,DC=Example,DC=Com''
       = str_lower sample_lib ''cn=alice,dc=example,dc=com''
   \<and> ''CN=Alice,DC=Example,DC=Com'' \<noteq> ''cn=alice,dc=example,dc=com''
   \<and> add_s_impl sample_lib 3 (init sample_directory) ''CN=Alice,DC=Example,DC=Com''
        [(''cn'', [Text ''alice''])] = (Inl TypeError, init sample_directory)"
proof -
  have v: "str2dn_ok sample_lib ''CN=Alice,DC=Example,DC=Com''"
    by (simp add: sample_lib_def)
  have l: "str_lower sample_lib ''CN=Alice,DC=Example,DC=Com''
             = str_lower sample_lib ''cn=alice,dc=example,dc=com''"
    by (simp add: sample_lower lower_def lower_char_def)
  have r: "add_s_impl sample_lib 3 (init sample_directory) ''CN=Alice,DC=Example,DC=Com''
             [(''cn'', [Text ''alice''])] = (Inl TypeError, init sample_directory)"
    by (simp add: add_s_impl_def v has_non_bytes_def)
  from v sample_alice_entry l r show ?thesis by simp
qed

section \<open>Tickets are consumed once\<close>

lemma async_modify_loop: "async_results (snd (modify_loop L st dn mods)) = async_results st"
  by (induction L st dn mods rule: modify_loop.induct) (auto split: option.splits sum.splits)

lemma async_simple_bind: "async_results (snd (simple_bind_s L st who cred)) = async_results st"
  by (auto simp add: simple_bind_s_def Let_def split: sum.splits error.splits if_splits)

lemma async_add: "async_results (snd (add_s_impl L n st dn items)) = async_results st"
  by (auto simp add: add_s_impl_def split: sum.splits option.splits)

lemma async_rename:
  "async_results (snd (rename_s_impl L st dn newrdn newsuperior)) = async_results st"
  by (auto simp add: rename_s_impl_def Let_def split: sum.splits option.splits list.splits)

lemma async_delete: "async_results (snd (delete_s_impl L st dn)) = async_results st"
  by (auto simp add: delete_s_impl_def)

lemma async_passwd: "async_results (snd (passwd_s_impl L st user oldpw newpw)) = async_results st"
  by (auto simp add: passwd_s_impl_def Let_def split: option.splits list.splits)

lemma async_search:
  "async_results (snd (search L st base scope filterstr attrlist attrsonly)) =
     (case search_s_impl L st base scope filterstr attrlist attrsonly of
        Inl e \<Rightarrow> async_results st
      | Inr v \<Rightarrow> async_results st @ [Some v])"
  by (auto simp add: search_def add_async_result_def Let_def split: sum.splits)

lemma async_result:
  "async_results (snd (result st msgid)) =
     (if 0 \<le> msgid \<and> msgid < int (length (async_results st))
      then (async_results st)[nat msgid := None] else async_results st)"
  by (simp add: result_def pop_async_result_def)

lemma step_length: "length (async_results st) \<le> length (async_results (step L st c))"
  by (cases c)
     (auto simp add: async_modify_loop async_simple_bind async_add async_rename async_delete
        async_passwd async_search async_result modify_s_impl_def start_tls_s_def unbind_def
        set_option_def split: sum.splits)

lemma step_slot:
  "i < length (async_results st) \<Longrightarrow> c \<noteq> Result (int i) \<Longrightarrow>
     async_results (step L st c) ! i = async_results st ! i"
  by (cases c)
     (auto simp add: async_modify_loop async_simple_bind async_add async_rename async_delete
        async_passwd async_search async_result modify_s_impl_def start_tls_s_def unbind_def
        set_option_def nth_append split: sum.splits)

lemma step_none:
  "i < length (async_results st) \<Longrightarrow> async_results st ! i = None \<Longrightarrow>
     async_results (step L st c) ! i = None"
  by (cases c)
     (auto simp add: async_modify_loop async_simple_bind async_add async_rename async_delete
        async_passwd async_search async_result modify_s_impl_def start_tls_s_def unbind_def
        set_option_def nth_append nth_list_update split: sum.splits)

lemma run_slot:
  "i < length (async_results st) \<Longrightarrow> Result (int i) \<notin> set cs \<Longrightarrow>
     i < length (async_results (run L st cs))
     \<and> async_results (run L st cs) ! i = async_results st ! i"
proof (induction cs arbitrary: st)
  case Nil
  then show ?case by simp
next
  case (Cons c cs)
  have len: "i < length (async_results (step L st c))"
    using Cons.prems(1) step_length [of st L c] by linarith
  have notin: "Result (int i) \<notin> set cs" and neq: "c \<noteq> Result (int i)"
    using Cons.prems(2) by auto
  from Cons.IH [OF len notin] step_slot [OF Cons.prems(1) neq, of L]
  show ?case by simp
qed

lemma run_none:
  "i < length (async_results st) \<Longrightarrow> async_results st ! i = None \<Longrightarrow>
     i < length (async_results (run L st cs)) \<and> async_results (run L st cs) ! i = None"
proof (induction cs arbitrary: st)
  case Nil
  then show ?case by simp
next
  case (Cons c cs)
  have len: "i < length (async_results (step L st c))"
    using Cons.prems(1) step_length [of st L c] by linarith
  from Cons.IH [OF len step_none [OF Cons.prems, of L c]]
  show ?case by simp
qed

lemma result_slot:
  "i < length (async_results st) \<Longrightarrow>
     result st (int i) = ((RES_SEARCH_RESULT, async_results st ! i),
                           st\<lparr>async_results := (async_results st)[i := None]\<rparr>)"
  by (simp add: result_def pop_async_result_def)

lemma ticket_fetch_sequence:
  assumes "search_s_impl L st base scope filterstr attrlist attrsonly = Inr v"
    and "t = int (length (async_results st))"
    and "st1 = snd (search L st base scope filterstr attrlist attrsonly)"
  shows "fst (search L st base scope filterstr attrlist attrsonly) = Inr t"
    and "Result t \<notin> set cs \<Longrightarrow> fst (result (run L st1 cs) t) = (RES_SEARCH_RESULT, Some v)"
    and "Result t \<notin> set cs \<Longrightarrow>
           fst (result (run L (snd (result (run L st1 cs) t)) cs') t) = (RES_SEARCH_RESULT, None)"
proof -
  let ?n = "length (async_results st)"
  have s: "search L st base scope filterstr attrlist attrsonly
             = (Inr (int ?n), st\<lparr>async_results := async_results st @ [Some v]\<rparr>)"
    using assms(1) by (simp add: search_def add_async_result_def Let_def)
  from s assms(2) show "fst (search L st base scope filterstr attrlist attrsonly) = Inr t"
    by simp
  from s assms(3) have st1: "st1 = st\<lparr>async_results := async_results st @ [Some v]\<rparr>"
    by simp
  have t1: "?n < length (async_results st1)" and v1: "async_results st1 ! ?n = Some v"
    by (simp_all add: st1)
  assume nf: "Result t \<notin> set cs"
  let ?sa = "run L st1 cs"
  from nf assms(2) have nf': "Result (int ?n) \<notin> set cs"
    by simp
  from run_slot [OF t1 nf', of L] v1
  have la: "?n < length (async_results ?sa)" and va: "async_results ?sa ! ?n = Some v"
    by simp_all
  let ?sb = "?sa\<lparr>async_results := (async_results ?sa)[?n := None]\<rparr>"
  have ra: "result ?sa t = ((RES_SEARCH_RESULT, Some v), ?sb)"
    using result_slot [OF la] va assms(2) by simp
  from ra show "fst (result (run L st1 cs) t) = (RES_SEARCH_RESULT, Some v)"
    by simp
  have lb: "?n < length (async_results ?sb)" and vb: "async_results ?sb ! ?n = None"
    using la by simp_all
  from run_none [OF lb vb, of L cs']
  have lc: "?n < length (async_results (run L ?sb cs'))"
    and vc: "async_results (run L ?sb cs') ! ?n = None"
    by simp_all
  have "fst (result (run L ?sb cs') t) = (RES_SEARCH_RESULT, None)"
    using result_slot [OF lc] vc assms(2) by simp
  with ra show "fst (result (run L (snd (result (run L st1 cs) t)) cs') t)
                  = (RES_SEARCH_RESULT, None)"
    by simp
qed

lemma result_out_of_range:
  "msgid < 0 \<or> int (length (async_results st)) \<le> msgid \<Longrightarrow>
     result st msgid = ((RES_SEARCH_RESULT, None), st)"
  by (auto simp add: result_def pop_async_result_def)

text \<open>
  C2. When a search succeeds with the result \<open>v\<close>, the ticket it returns is the
  number of results issued before. After any sequence of calls that does not fetch this
  ticket, the first fetch on it returns the collection stored when the ticket was
  issued: a list with the DNs of \<open>v\<close> in their order, and \<open>v\<close> itself when no call
  in between has changed an entry in place. After that fetch and any further sequence
  of calls whatever, fetches of the same ticket included, a fetch on it returns
  \<^verbatim>\<open>None\<close>. A fetch on an index that is negative or not yet issued returns
  \<^verbatim>\<open>None\<close> and changes nothing. \<open>result\<close> has no failing branch.
\<close>

theorem ticket_consumed_once:
  "(\<forall>v t st1 cs cs'.
      search_s_impl L st base scope filterstr attrlist attrsonly = Inr v
      \<and> t = int (length (async_results st))
      \<and> st1 = snd (search L st base scope filterstr attrlist attrsonly)
      \<and> Result t \<notin> set cs \<longrightarrow>
        fst (search L st base scope filterstr attrlist attrsonly) = Inr t
        \<and> (\<exists>w. fst (result (run L st1 cs) t) = (RES_SEARCH_RESULT, Some w)
               \<and> map fst w = map fst v
               \<and> ((\<forall>c \<in> set cs. \<not> changes_entries c) \<longrightarrow> w = v))
        \<and> fst (result (run L (snd (result (run L st1 cs) t)) cs') t)
            = (RES_SEARCH_RESULT, None))
   \<and> (\<forall>msgid. msgid < 0 \<or> int (length (async_results st)) \<le> msgid \<longrightarrow>
          result st msgid = ((RES_SEARCH_RESULT, None), st))"
proof (intro conjI allI impI)
  fix v t st1 cs cs'
  assume h: "search_s_impl L st base scope filterstr attrlist attrsonly = Inr v
      \<and> t = int (length (async_results st))
      \<and> st1 = snd (search L st base scope filterstr attrlist attrsonly)
      \<and> Result t \<notin> set cs"
  then have a: "search_s_impl L st base scope filterstr attrlist attrsonly = Inr v"
    and b: "t = int (length (async_results st))"
    and c: "st1 = snd (search L st base scope filterstr attrlist attrsonly)"
    and d: "Result t \<notin> set cs"
    by blast+
  show "fst (search L st base scope filterstr attrlist attrsonly) = Inr t"
    by (rule ticket_fetch_sequence(1) [OF a b c])
  have "fst (result (run L st1 cs) t) = (RES_SEARCH_RESULT, Some v)"
    by (rule ticket_fetch_sequence(2) [OF a b c d])
  then show "\<exists>w. fst (result (run L st1 cs) t) = (RES_SEARCH_RESULT, Some w)
               \<and> map fst w = map fst v
               \<and> ((\<forall>c \<in> set cs. \<not> changes_entries c) \<longrightarrow> w = v)"
    by simp
  show "fst (result (run L (snd (result (run L st1 cs) t)) cs') t) = (RES_SEARCH_RESULT, None)"
    by (rule ticket_fetch_sequence(3) [OF a b c d])
next
  fix msgid
  assume "msgid < 0 \<or> int (length (async_results st)) \<le> msgid"
  then show "result st msgid = ((RES_SEARCH_RESULT, None), st)"
    by (rule result_out_of_range)
qed

theorem ticket_consumed_once_witness:
  "search_s_impl parsing_lib (init sample_directory) ''cn=alice,dc=example,dc=com'' SCOPE_BASE
     ''(cn=*)'' (Some [''cn'']) 0
     = Inr [(''cn=alice,dc=example,dc=com'', [(''cn'', [Bytes ''alice'', Bytes ''al''])])]
   \<and> fst (search parsing_lib (init sample_directory) ''cn=alice,dc=example,dc=com'' SCOPE_BASE
            ''(cn=*)'' (Some [''cn'']) 0) = Inr 0
   \<and> fst (result (run parsing_lib
                   (snd (search parsing_lib (init sample_directory)
                           ''cn=alice,dc=example,dc=com'' SCOPE_BASE ''(cn=*)''
                           (Some [''cn'']) 0))
                   [Unbind, Delete ''cn=alice,dc=example,dc=com'', Result 1]) 0)
       = (RES_SEARCH_RESULT,
          Some [(''cn=alice,dc=example,dc=com'', [(''cn'', [Bytes ''alice'', Bytes ''al''])])])
   \<and> fst (result (run parsing_lib
                   (snd (result (run parsing_lib
                           (snd (search parsing_lib (init sample_directory)
                                   ''cn=alice,dc=example,dc=com'' SCOPE_BASE ''(cn=*)''
                                   (Some [''cn'']) 0))
                           [Unbind, Delete ''cn=alice,dc=example,dc=com'', Result 1]) 0))
                   [Result 0, StartTls]) 0)
       = (RES_SEARCH_RESULT, None)
   \<and> result (init sample_directory) 0 = ((RES_SEARCH_RESULT, None), init sample_directory)"
proof -
  let ?v = "[(''cn=alice,dc=example,dc=com'', [(''cn'', [Bytes ''alice'', Bytes ''al''])])]"
  let ?st1 = "snd (search parsing_lib (init sample_directory) ''cn=alice,dc=example,dc=com''
                     SCOPE_BASE ''(cn=*)'' (Some [''cn'']) 0)"
  let ?cs = "[Unbind, Delete ''cn=alice,dc=example,dc=com'', Result 1]"
  have sv: "search_s_impl parsing_lib (init sample_directory) ''cn=alice,dc=example,dc=com''
              SCOPE_BASE ''(cn=*)'' (Some [''cn'']) 0 = Inr ?v"
    by (simp add: search_s_impl_def parsing_lib_def sample_lib_def cidict_contains_def
        cidict_getitem_def cidict_keys_def init_def sample_directory_def lower_def
        lower_char_def scope_dns_def SCOPE_BASE_def project_attrs_def strip_values_def)
  have len: "(0::int) = int (length (async_results (init sample_directory)))"
    by (simp add: init_def)
  have nf: "Result 0 \<notin> set ?cs"
    by simp
  have nc: "\<forall>c \<in> set ?cs. \<not> changes_entries c"
    by simp
  note t = ticket_consumed_once [of parsing_lib "init sample_directory"
      "''cn=alice,dc=example,dc=com''" SCOPE_BASE "''(cn=*)''" "Some [''cn'']" 0]
  from t have o: "result (init sample_directory) 0
                    = ((RES_SEARCH_RESULT, None), init sample_directory)"
    using len by simp
  from t have
    "search_s_impl parsing_lib (init sample_directory) ''cn=alice,dc=example,dc=com''
         SCOPE_BASE ''(cn=*)'' (Some [''cn'']) 0 = Inr ?v
      \<and> (0::int) = int (length (async_results (init sample_directory)))
      \<and> ?st1 = ?st1
      \<and> Result 0 \<notin> set ?cs \<longrightarrow>
        fst (search parsing_lib (init sample_directory) ''cn=alice,dc=example,dc=com''
               SCOPE_BASE ''(cn=*)'' (Some [''cn'']) 0) = Inr 0
        \<and> (\<exists>w. fst (result (run parsing_lib ?st1 ?cs) 0) = (RES_SEARCH_RESULT, Some w)
               \<and> map fst w = map fst ?v
               \<and> ((\<forall>c \<in> set ?cs. \<not> changes_entries c) \<longrightarrow> w = ?v))
        \<and> fst (result (run parsing_lib (snd (result (run parsing_lib ?st1 ?cs) 0))
                 [Result 0, StartTls]) 0)
            = (RES_SEARCH_RESULT, None)"
    by blast
  with sv len nf nc o show ?thesis by blast
qed

section \<open>No attribute with an empty list of values\<close>

lemma set_update_subset: "set (AList.update k v al) \<subseteq> insert (k, v) (set al)"
  by (induction al) auto

lemma set_map_entry_subset:
  "set (AList.map_entry k f al) \<subseteq> set al \<union> {(k, f v) | v. (k, v) \<in> set al}"
  by (induction al) auto

lemma entry_ok_update: "entry_ok e \<Longrightarrow> v \<noteq> [] \<Longrightarrow> entry_ok (AList.update k v e)"
  unfolding entry_ok_def using set_update_subset [of k v e] by auto

lemma entry_ok_delete: "entry_ok e \<Longrightarrow> entry_ok (AList.delete k e)"
  unfolding entry_ok_def by (auto simp add: AList.delete_eq)

lemma entry_ok_lookup: "entry_ok e \<Longrightarrow> map_of e k = Some vs \<Longrightarrow> vs \<noteq> []"
  unfolding entry_ok_def by (auto dest: map_of_SomeD)

lemma store_ok_getitem: "store_ok d \<Longrightarrow> cidict_getitem lw d k = Some e \<Longrightarrow> entry_ok e"
  unfolding store_ok_def cidict_getitem_def by (auto dest: map_of_SomeD)

lemma store_ok_setitem: "store_ok d \<Longrightarrow> entry_ok e \<Longrightarrow> store_ok (cidict_setitem lw d k e)"
  unfolding store_ok_def cidict_setitem_def
  using set_update_subset [of "lw k" "(k, e)" d] by auto

lemma store_ok_delitem: "store_ok d \<Longrightarrow> store_ok (cidict_delitem lw d k)"
  unfolding store_ok_def cidict_delitem_def by (auto simp add: AList.delete_eq)

lemma store_ok_mutate: "store_ok d \<Longrightarrow> entry_ok e \<Longrightarrow> store_ok (cidict_mutate lw d k e)"
  unfolding store_ok_def cidict_mutate_def
  using set_map_entry_subset [of "lw k" "\<lambda>(k0, v0). (k0, e)" d] by fastforce

lemma append_new_nonempty: "cur \<noteq> [] \<Longrightarrow> append_new cur vs \<noteq> []"
  by (induction vs arbitrary: cur) auto

lemma modify_item_ok:
  assumes "entry_ok e" and "modify_item e op key mv = Inr e'"
  shows "entry_ok e'"
proof -
  have cur: "cur \<noteq> []" if "map_of e key = Some cur" for cur
    using entry_ok_lookup [OF assms(1) that] .
  show ?thesis
    using assms cur
    by (auto simp add: modify_item_def Let_def entry_ok_update entry_ok_delete
        append_new_nonempty split: if_splits option.splits)
qed

lemma modify_loop_ok:
  "store_ok (directory st) \<Longrightarrow> store_ok (directory (snd (modify_loop L st dn mods)))"
proof (induction L st dn mods rule: modify_loop.induct)
  case (1 L st dn)
  then show ?case by simp
next
  case (2 L st dn op key mv rest)
  show ?case
  proof (cases "cidict_getitem (str_lower L) (directory st) dn")
    case None
    with 2 show ?thesis by simp
  next
    case (Some e)
    have eok: "entry_ok e"
      using store_ok_getitem [OF "2.prems" Some] .
    show ?thesis
    proof (cases "modify_item e op key mv")
      case (Inl err)
      with Some 2 show ?thesis by simp
    next
      case (Inr e')
      have "entry_ok e'"
        using modify_item_ok [OF eok Inr] .
      then have "store_ok (directory (st\<lparr>directory := cidict_mutate (str_lower L) (directory st)
          dn e'\<rparr>))"
        using "2.prems" by (simp add: store_ok_mutate)
      from "2.IH" [OF Some Inr this] Some Inr show ?thesis by simp
    qed
  qed
qed

lemma remove1_nonempty: "1 < length cur \<Longrightarrow> remove1 v cur \<noteq> []"
  by (cases cur) (auto split: if_splits)

lemma add_new_value_ok:
  "entry_ok e1 \<Longrightarrow>
     entry_ok (case map_of e1 newattr of
                 None \<Rightarrow> AList.update newattr [newvalue] e1
               | Some cur \<Rightarrow>
                   if newvalue \<in> set cur then e1
                   else AList.update newattr (cur @ [newvalue]) e1)"
  by (auto simp add: entry_ok_update split: option.splits)

lemma rename_entry_ok:
  assumes "entry_ok e" and "rename_entry e oldattr oldvalue newattr newvalue = Inr e'"
  shows "entry_ok e'"
proof (cases "oldattr = newattr")
  case True
  from assms(2) True obtain cur where cur: "map_of e newattr = Some cur"
    and e': "e' = (if newvalue \<in> set (remove1 oldvalue cur)
                   then AList.update newattr (remove1 oldvalue cur) e
                   else AList.update newattr (remove1 oldvalue cur @ [newvalue]) e)"
    by (auto simp add: rename_entry_def remove_value_def update_conv'
        split: option.splits if_splits)
  show ?thesis
  proof (cases "newvalue \<in> set (remove1 oldvalue cur)")
    case True
    then have "remove1 oldvalue cur \<noteq> []" by auto
    with e' True assms(1) show ?thesis by (simp add: entry_ok_update)
  next
    case False
    with e' assms(1) show ?thesis by (simp add: entry_ok_update)
  qed
next
  case False
  let ?first = "case map_of e oldattr of
                  None \<Rightarrow> Inl KeyError
                | Some cur \<Rightarrow>
                    if length cur > 1 then remove_value e oldattr oldvalue
                    else Inr (AList.delete oldattr e)"
  show ?thesis
  proof (cases ?first)
    case (Inl err)
    with assms(2) False show ?thesis
      by (simp add: rename_entry_def)
  next
    case (Inr e1)
    have e1: "entry_ok e1"
      using Inr assms(1)
      by (auto simp add: remove_value_def entry_ok_update entry_ok_delete remove1_nonempty
          split: option.splits if_splits)
    have "e' = (case map_of e1 newattr of
                  None \<Rightarrow> AList.update newattr [newvalue] e1
                | Some cur \<Rightarrow>
                    if newvalue \<in> set cur then e1
                    else AList.update newattr (cur @ [newvalue]) e1)"
      using assms(2) False Inr by (simp add: rename_entry_def)
    with add_new_value_ok [OF e1] show ?thesis by simp
  qed
qed

lemma modify_ok:
  "store_ok (directory st) \<Longrightarrow> store_ok (directory (snd (modify_s_impl L st dn mods)))"
  by (simp add: modify_s_impl_def modify_loop_ok)

lemma delete_ok:
  "store_ok (directory st) \<Longrightarrow> store_ok (directory (snd (delete_s_impl L st dn)))"
  by (simp add: delete_s_impl_def store_ok_delitem)

lemma passwd_ok:
  assumes "store_ok (directory st)"
  shows "store_ok (directory (snd (passwd_s_impl L st user oldpw newpw)))"
proof (cases "cidict_getitem (str_lower L) (directory st) user")
  case None
  with assms show ?thesis by (simp add: passwd_s_impl_def)
next
  case (Some e)
  have "entry_ok (AList.update ''userPassword'' [newpw] e)"
    using store_ok_getitem [OF assms Some] by (simp add: entry_ok_update)
  then have "store_ok (cidict_mutate (str_lower L) (directory st) user
                         (AList.update ''userPassword'' [newpw] e))"
    using assms by (simp add: store_ok_mutate)
  with assms Some show ?thesis
    by (auto simp add: passwd_s_impl_def Let_def split: option.splits list.splits)
qed

lemma rename_ok:
  assumes "store_ok (directory st)"
  shows "store_ok (directory (snd (rename_s_impl L st dn newrdn newsuperior)))"
proof (cases "cidict_getitem (str_lower L) (directory st) dn")
  case None
  with assms show ?thesis by (simp add: rename_s_impl_def Let_def)
next
  case (Some e)
  have eok: "entry_ok e"
    using store_ok_getitem [OF assms Some] .
  have new: "store_ok (cidict_delitem (str_lower L) (cidict_setitem (str_lower L) (directory st) k
      e') dn)"
    if "rename_entry e oa ov na nv = Inr e'" for k e' oa ov na nv
    using rename_entry_ok [OF eok that] assms by (simp add: store_ok_setitem store_ok_delitem)
  show ?thesis
    using assms Some new
    by (auto simp add: rename_s_impl_def Let_def split: list.splits sum.splits)
qed

lemma build_entry_nonempty:
  "entry_ok acc \<Longrightarrow> \<forall>(a, vs) \<in> set items. vs \<noteq> [] \<Longrightarrow> build_entry items acc = Inr e \<Longrightarrow>
     entry_ok e"
proof (induction items arbitrary: acc)
  case Nil
  then show ?case by simp
next
  case (Cons item items)
  obtain a vs where item: "item = (a, vs)"
    by (cases item)
  from Cons.prems(2) item have vs: "vs \<noteq> []" and rest: "\<forall>(a, vs) \<in> set items. vs \<noteq> []"
    by simp_all
  from Cons.prems(3) item have b: "build_entry items (AList.update a vs acc) = Inr e"
    by (simp split: if_splits)
  from Cons.IH [OF entry_ok_update [OF Cons.prems(1) vs] rest b] show ?case .
qed

lemma add_ok:
  assumes "store_ok (directory st)" and "\<forall>(a, vs) \<in> set items. vs \<noteq> []"
  shows "store_ok (directory (snd (add_s_impl L n st dn items)))"
proof (cases "build_entry items []")
  case (Inl err)
  with assms(1) show ?thesis by (simp add: add_s_impl_def)
next
  case (Inr e)
  have "entry_ok []" by (simp add: entry_ok_def)
  from build_entry_nonempty [OF this assms(2) Inr] have "entry_ok e" .
  with assms(1) Inr show ?thesis
    by (auto simp add: add_s_impl_def store_ok_setitem split: option.splits)
qed

lemma directory_simple_bind: "directory (snd (simple_bind_s L st who cred)) = directory st"
  by (auto simp add: simple_bind_s_def Let_def split: sum.splits error.splits if_splits)

lemma directory_search:
  "directory (snd (search L st base scope filterstr attrlist attrsonly)) = directory st"
  by (auto simp add: search_def add_async_result_def Let_def split: sum.splits)

lemma directory_result: "directory (snd (result st msgid)) = directory st"
  by (simp add: result_def pop_async_result_def)

lemma step_ok: "store_ok (directory st) \<Longrightarrow> call_ok c \<Longrightarrow> store_ok (directory (step L st c))"
  by (cases c)
     (simp_all add: modify_ok delete_ok passwd_ok rename_ok add_ok directory_simple_bind
        directory_search directory_result start_tls_s_def unbind_def set_option_def)

lemma run_ok:
  "store_ok (directory st) \<Longrightarrow> \<forall>c \<in> set cs. call_ok c \<Longrightarrow> store_ok (directory (run L st cs))"
  by (induction cs arbitrary: st) (simp_all add: step_ok)

text \<open>
  From a directory in which no attribute holds an empty list of values, modify, delete,
  rename and password change lead to such a directory again, whatever their arguments
  and whether they return or raise (modify keeps the changes of the triples before the
  failing one). So does an add whose items all carry at least one value, and so does
  every sequence of calls whose adds are of that kind.
\<close>

lemma other_operations_keep_entries_ok:
  assumes "store_ok (directory st)"
  shows "store_ok (directory (snd (modify_s_impl L st dn mods)))
       \<and> store_ok (directory (snd (delete_s_impl L st dn)))
       \<and> store_ok (directory (snd (rename_s_impl L st dn newrdn newsuperior)))
       \<and> store_ok (directory (snd (passwd_s_impl L st dn oldpw newpw)))
       \<and> ((\<forall>(a, vs) \<in> set items. vs \<noteq> []) \<longrightarrow>
            store_ok (directory (snd (add_s_impl L n st dn items))))
       \<and> ((\<forall>c \<in> set cs. call_ok c) \<longrightarrow> store_ok (directory (run L st cs)))"
  using assms
  by (simp add: modify_ok delete_ok rename_ok passwd_ok add_ok run_ok)

lemma sample_store_ok: "store_ok (directory (init sample_directory))"
  by (simp add: store_ok_def entry_ok_def init_def sample_directory_def)

lemma other_operations_keep_entries_ok_example:
  "store_ok (directory (init sample_directory))
   \<and> directory (snd (modify_s_impl sample_lib (init sample_directory)
                        ''cn=alice,dc=example,dc=com''
                        [(MOD_DELETE, ''cn'', VList [Bytes ''al'', Bytes ''alice''])]))
       = [(''cn=alice,dc=example,dc=com'', ''cn=alice,dc=example,dc=com'',
           [(''userPassword'', [Bytes ''secret''])])]
   \<and> store_ok (directory (snd (modify_s_impl sample_lib (init sample_directory)
                        ''cn=alice,dc=example,dc=com''
                        [(MOD_DELETE, ''cn'', VList [Bytes ''al'', Bytes ''alice''])])))
   \<and> store_ok (directory (snd (add_s_impl sample_lib 0 (init sample_directory)
                        ''cn=bob,dc=example,dc=com'' [(''cn'', [Bytes ''bob''])])))
   \<and> store_ok (directory (run sample_lib (init sample_directory)
                        [Add 0 ''cn=bob,dc=example,dc=com'' [(''cn'', [Bytes ''bob''])],
                         Rename ''cn=bob,dc=example,dc=com'' ''uid=bob'' None,
                         Delete ''cn=alice,dc=example,dc=com'']))"
proof -
  have i: "\<forall>(a, vs) \<in> set [(''cn'', [Bytes ''bob''])]. vs \<noteq> []"
    by simp
  have c: "\<forall>c \<in> set [Add 0 ''cn=bob,dc=example,dc=com'' [(''cn'', [Bytes ''bob''])],
                        Rename ''cn=bob,dc=example,dc=com'' ''uid=bob'' None,
                        Delete ''cn=alice,dc=example,dc=com'']. call_ok c"
    by simp
  have m: "directory (snd (modify_s_impl sample_lib (init sample_directory)
                        ''cn=alice,dc=example,dc=com''
                        [(MOD_DELETE, ''cn'', VList [Bytes ''al'', Bytes ''alice''])]))
       = [(''cn=alice,dc=example,dc=com'', ''cn=alice,dc=example,dc=com'',
           [(''userPassword'', [Bytes ''secret''])])]"
    by (simp add: modify_s_impl_def sample_alice_valid sample_alice_entry modify_item_def
        MOD_DELETE_def MOD_ADD_def has_non_bytes_def)
       (simp add: cidict_mutate_def init_def sample_directory_def sample_lower lower_def
           lower_char_def)
  from other_operations_keep_entries_ok [OF sample_store_ok, of sample_lib
      "''cn=alice,dc=example,dc=com''"
      "[(MOD_DELETE, ''cn'', VList [Bytes ''al'', Bytes ''alice''])]"]
  have w1: "store_ok (directory (snd (modify_s_impl sample_lib (init sample_directory)
                        ''cn=alice,dc=example,dc=com''
                        [(MOD_DELETE, ''cn'', VList [Bytes ''al'', Bytes ''alice''])])))"
    by blast
  from other_operations_keep_entries_ok [OF sample_store_ok, of sample_lib
      "''cn=bob,dc=example,dc=com''"
      "[]" "''x=y''" None None "Bytes ''x''" "[(''cn'', [Bytes ''bob''])]" 0
      "[Add 0 ''cn=bob,dc=example,dc=com'' [(''cn'', [Bytes ''bob''])],
        Rename ''cn=bob,dc=example,dc=com'' ''uid=bob'' None,
        Delete ''cn=alice,dc=example,dc=com'']"] i c
  have w2: "store_ok (directory (snd (add_s_impl sample_lib 0 (init sample_directory)
                        ''cn=bob,dc=example,dc=com'' [(''cn'', [Bytes ''bob''])])))"
    and w3: "store_ok (directory (run sample_lib (init sample_directory)
                        [Add 0 ''cn=bob,dc=example,dc=com'' [(''cn'', [Bytes ''bob''])],
                         Rename ''cn=bob,dc=example,dc=com'' ''uid=bob'' None,
                         Delete ''cn=alice,dc=example,dc=com'']))"
    by blast+
  from sample_store_ok m w1 w2 w3 show ?thesis by blast
qed

text \<open>
  Where a value list could become empty, modify and rename do not leave it: an add
  modification with no values is refused, and the attribute key goes with its last value.
\<close>

lemma modify_add_empty_rejected:
  "normalize_value mv = [] \<Longrightarrow> modify_item e MOD_ADD key mv = Inl PROTOCOL_ERROR"
  by (simp add: modify_item_def)

lemma modify_delete_last_value_removes_key:
  assumes "map_of e key = Some cur" and "vs \<noteq> []" and "\<not> has_non_bytes vs"
    and "set cur \<subseteq> set vs"
  shows "modify_item e MOD_DELETE key (VList vs) = Inr (AList.delete key e)"
    and "map_of (AList.delete key e) key = None"
proof -
  from assms(4) have "filter (\<lambda>x. x \<notin> set vs) cur = []"
    by (auto simp add: filter_empty_conv)
  with assms(1-3) show "modify_item e MOD_DELETE key (VList vs) = Inr (AList.delete key e)"
    by (simp add: modify_item_def MOD_DELETE_def MOD_ADD_def)
  show "map_of (AList.delete key e) key = None"
    by (simp add: delete_conv')
qed

lemma modify_replace_empty_removes_key:
  assumes "normalize_value mv = []"
  shows "\<exists>e'. modify_item e MOD_REPLACE key mv = Inr e' \<and> map_of e' key = None"
  using assms
  by (auto simp add: modify_item_def MOD_REPLACE_def MOD_DELETE_def MOD_ADD_def delete_conv'
      split: option.splits)

lemma rename_last_value_removes_key:
  assumes "oldattr \<noteq> newattr" and "map_of e oldattr = Some [v]"
  shows "\<exists>e'. rename_entry e oldattr v newattr nv = Inr e' \<and> map_of e' oldattr = None"
  using assms
  by (auto simp add: rename_entry_def update_conv' delete_conv' split: option.splits)

text \<open>
  C4. The invariant does not survive every add: an add whose record gives an attribute
  no values stores the attribute with the empty list. The sample directory satisfies the
  invariant; adding \<open>cn=bob,dc=example,dc=com\<close> with \<open>cn = []\<close> succeeds with
  \<open>(105, [], 0, [])\<close>, and the directory it leaves holds the attribute \<open>cn\<close> with no
  values and no longer satisfies the invariant.
\<close>

theorem add_empty_value_list_stored:
  "str2dn_ok sample_lib ''cn=bob,dc=example,dc=com''
   \<and> add_s_impl sample_lib 0 (init sample_directory) ''cn=bob,dc=example,dc=com''
       [(''cn'', [])]
     = (Inr (105, [], 0, []),
        init (sample_directory @
              [(''cn=bob,dc=example,dc=com'', ''cn=bob,dc=example,dc=com'', [(''cn'', [])])]))
   \<and> cidict_getitem (str_lower sample_lib)
        (directory (snd (add_s_impl sample_lib 0 (init sample_directory)
                           ''cn=bob,dc=example,dc=com'' [(''cn'', [])])))
        ''cn=bob,dc=example,dc=com''
       = Some [(''cn'', [])]
   \<and> map_of [(''cn'', ([]::pyval list))] ''cn'' = Some []"
  by (simp add: add_s_impl_def sample_lib_def has_non_bytes_def cidict_getitem_def
      cidict_setitem_def init_def sample_directory_def lower_def lower_char_def)

lemma add_empty_value_list_breaks_invariant:
  "store_ok (directory (init sample_directory))
   \<and> \<not> store_ok (directory (snd (add_s_impl sample_lib 0 (init sample_directory)
                          ''cn=bob,dc=example,dc=com'' [(''cn'', [])])))"
proof -
  have run: "add_s_impl sample_lib 0 (init sample_directory) ''cn=bob,dc=example,dc=com''
               [(''cn'', [])]
             = (Inr (105, [], 0, []),
                init (sample_directory @
                      [(''cn=bob,dc=example,dc=com'', ''cn=bob,dc=example,dc=com'',
                        [(''cn'', [])])]))"
    by (simp add: add_s_impl_def sample_lib_def has_non_bytes_def cidict_getitem_def
        cidict_setitem_def init_def sample_directory_def lower_def lower_char_def)
  have bad: "\<not> store_ok (directory (init (sample_directory @
               [(''cn=bob,dc=example,dc=com'', ''cn=bob,dc=example,dc=com'', [(''cn'', [])])])))"
    by (simp add: store_ok_def entry_ok_def init_def)
  from sample_store_ok run bad show ?thesis by simp
qed

end

